theory Spec2Isabelle
  imports Complex_Main
begin

section \<open>JavaScript strings and numbers\<close>

text \<open>
  Strings are lists of characters.  A character stands for a code unit below 256, the
  Latin-1 range; text with other code units is outside the model.  Only the string
  operations the upload code calls are modelled: \<open>split\<close> on a one-character
  separator, \<open>Array.pop\<close>, \<open>toLowerCase\<close> (which in this range maps A to Z and the
  accented capitals U+00C0 to U+00DE, without the multiplication sign U+00D7, to the
  letter 32 places on), \<open>includes\<close>, \<open>endsWith\<close>, \<open>join\<close>, \<open>substr\<close> and the
  decimal rendering of a non-negative integer inside a template literal.
\<close>

fun split_on :: "char \<Rightarrow> string \<Rightarrow> string list" where
  "split_on c [] = [[]]"
| "split_on c (x # xs) =
     (if x = c then [] # split_on c xs
      else (case split_on c xs of
              [] \<Rightarrow> [[x]]
            | s # ss \<Rightarrow> (x # s) # ss))"

definition pop :: "'a list \<Rightarrow> 'a option" where
  \<comment> \<open>the value of \<open>Array.prototype.pop\<close>: \<open>undefined\<close> on an empty array\<close>
  "pop xs = (if xs = [] then None else Some (last xs))"

definition upper_letters :: string where
  "upper_letters =
     ''ABCDEFGHIJKLMNOPQRSTUVWXYZ'' @
     [CHR 0xC0, CHR 0xC1, CHR 0xC2, CHR 0xC3, CHR 0xC4, CHR 0xC5, CHR 0xC6, CHR 0xC7,
      CHR 0xC8, CHR 0xC9, CHR 0xCA, CHR 0xCB, CHR 0xCC, CHR 0xCD, CHR 0xCE, CHR 0xCF,
      CHR 0xD0, CHR 0xD1, CHR 0xD2, CHR 0xD3, CHR 0xD4, CHR 0xD5, CHR 0xD6,
      CHR 0xD8, CHR 0xD9, CHR 0xDA, CHR 0xDB, CHR 0xDC, CHR 0xDD, CHR 0xDE]"

definition lower_letters :: string where
  "lower_letters =
     ''abcdefghijklmnopqrstuvwxyz'' @
     [CHR 0xE0, CHR 0xE1, CHR 0xE2, CHR 0xE3, CHR 0xE4, CHR 0xE5, CHR 0xE6, CHR 0xE7,
      CHR 0xE8, CHR 0xE9, CHR 0xEA, CHR 0xEB, CHR 0xEC, CHR 0xED, CHR 0xEE, CHR 0xEF,
      CHR 0xF0, CHR 0xF1, CHR 0xF2, CHR 0xF3, CHR 0xF4, CHR 0xF5, CHR 0xF6,
      CHR 0xF8, CHR 0xF9, CHR 0xFA, CHR 0xFB, CHR 0xFC, CHR 0xFD, CHR 0xFE]"

definition lower_char :: "char \<Rightarrow> char" where
  "lower_char c =
     (case map_of (zip upper_letters lower_letters) c of
        None \<Rightarrow> c
      | Some l \<Rightarrow> l)"

definition toLowerCase :: "string \<Rightarrow> string" where
  "toLowerCase s = map lower_char s"

fun startsWith :: "string \<Rightarrow> string \<Rightarrow> bool" where
  "startsWith s [] = True"
| "startsWith [] (p # ps) = False"
| "startsWith (x # xs) (p # ps) = (x = p \<and> startsWith xs ps)"

fun includes_str :: "string \<Rightarrow> string \<Rightarrow> bool" where
  "includes_str [] p = (p = [])"
| "includes_str (x # xs) p = (startsWith (x # xs) p \<or> includes_str xs p)"

definition endsWith :: "string \<Rightarrow> string \<Rightarrow> bool" where
  "endsWith s p = startsWith (rev s) (rev p)"

fun join :: "string \<Rightarrow> string list \<Rightarrow> string" where
  "join sep [] = []"
| "join sep [s] = s"
| "join sep (s # t # ts) = s @ sep @ join sep (t # ts)"

definition substr :: "string \<Rightarrow> nat \<Rightarrow> nat \<Rightarrow> string" where
  \<comment> \<open>\<open>s.substr(start, len)\<close> for a non-negative start\<close>
  "substr s start len = take len (drop start s)"

definition digit_char :: "nat \<Rightarrow> char" where
  "digit_char d = ''0123456789'' ! d"

function show_nat :: "nat \<Rightarrow> string" where
  "show_nat n =
     (if n < 10 then [digit_char n]
      else show_nat (n div 10) @ [digit_char (n mod 10)])"
  by pat_completeness auto
termination
  by (relation "measure id") auto

declare show_nat.simps [simp del]

section \<open>The file-upload component: validation\<close>

text \<open>
  A browser \<open>File\<close> as far as the code reads it: \<open>name\<close>, \<open>type\<close> (the MIME
  type) and \<open>size\<close> in bytes.  The component's props \<open>maxFileSize\<close> (in MB, default
  50) and \<open>acceptedTypes\<close> (default \<open>['.kml', '.kmz']\<close>) are the validator's
  configuration.
\<close>

record File =
  file_name :: string
  file_type :: string
  file_size :: nat

record FileUploadProps =
  maxFileSize :: nat
  acceptedTypes :: "string list"

definition default_props :: FileUploadProps where
  "default_props = \<lparr> maxFileSize = 50, acceptedTypes = [''.kml'', ''.kmz''] \<rparr>"

definition fileExtension :: "File \<Rightarrow> string" where
  \<comment> \<open>\<open>'.' + file.name.split('.').pop()?.toLowerCase()\<close>\<close>
  "fileExtension file =
     ''.'' @ (case pop (split_on (CHR ''.'') (file_name file)) of
                None \<Rightarrow> ''undefined''
              | Some seg \<Rightarrow> toLowerCase seg)"

definition too_large_message :: "FileUploadProps \<Rightarrow> string" where
  "too_large_message P = ''File size must be less than '' @ show_nat (maxFileSize P) @ ''MB''"

definition unsupported_type_message :: "FileUploadProps \<Rightarrow> string" where
  "unsupported_type_message P =
     ''Only '' @ join '', '' (acceptedTypes P) @ '' files are allowed''"

definition validateFile :: "FileUploadProps \<Rightarrow> File \<Rightarrow> string option" where
  \<comment> \<open>\<open>None\<close> is the source's \<open>null\<close>: the file is valid\<close>
  "validateFile P file =
     (if file_size file > maxFileSize P * 1024 * 1024 then Some (too_large_message P)
      else if fileExtension file \<notin> set (acceptedTypes P)
           then Some (unsupported_type_message P)
      else None)"




section \<open>JSON values and thrown errors\<close>

text \<open>
  What \<open>response.json()\<close> yields is an arbitrary JSON value; the TypeScript interfaces
  are not checked at run time.  A property that is absent reads as \<open>undefined\<close>,
  modelled as \<open>None\<close>.  Numbers are integers here (fractions play no part below).
\<close>

datatype json =
    JNull
  | JBool bool
  | JNum int
  | JStr string
  | JArr "json list"
  | JObj "(string \<times> json) list"

definition js_prop :: "json \<Rightarrow> string \<Rightarrow> json option" where
  \<comment> \<open>\<open>data.key\<close> on a value other than \<open>null\<close>\<close>
  "js_prop d k = (case d of JObj kvs \<Rightarrow> map_of kvs k | _ \<Rightarrow> None)"

fun truthy :: "json option \<Rightarrow> bool" where
  "truthy None = False"
| "truthy (Some JNull) = False"
| "truthy (Some (JBool b)) = b"
| "truthy (Some (JNum n)) = (n \<noteq> 0)"
| "truthy (Some (JStr s)) = (s \<noteq> [])"
| "truthy (Some (JArr xs)) = True"
| "truthy (Some (JObj kvs)) = True"

definition or_else :: "json option \<Rightarrow> json \<Rightarrow> json" where
  \<comment> \<open>\<open>a || b\<close>: the left operand when it is truthy, else the right one\<close>
  "or_else a b = (case a of None \<Rightarrow> b | Some v \<Rightarrow> if truthy (Some v) then v else b)"

text \<open>
  A thrown value is an \<open>Error\<close> with its message, or something that is not an
  \<open>Error\<close> instance.
\<close>

datatype thrown = Err string | NotAnError

definition null_property_error :: "string \<Rightarrow> thrown" where
  \<comment> \<open>the \<open>TypeError\<close> of reading a property of \<open>null\<close> (the wording is the engine's)\<close>
  "null_property_error k =
     Err (''Cannot read properties of null (reading '' @ [CHR 0x27] @ k @ [CHR 0x27] @ '')'')"

text \<open>
  The outcome of a \<open>fetch\<close>: the promise rejects, or a response arrives with its
  status, status text and body; \<open>response.json()\<close> rejects on a body that does not
  parse.
\<close>

record Response =
  resp_status :: nat
  resp_statusText :: string
  resp_json :: "thrown + json"

datatype fetch_result = FetchRejects thrown | FetchResolves Response

definition ok :: "Response \<Rightarrow> bool" where
  "ok r = (200 \<le> resp_status r \<and> resp_status r \<le> 299)"

section \<open>The API service: requestPresignedUrl\<close>

record PresignedUrlResponse =
  presignedUrl :: json
  pr_fileKey :: json
  expiresIn :: json
  pr_fields :: json

definition size_limit_message :: string where
  "size_limit_message = ''File size exceeds 50MB limit''"

definition type_not_allowed_message :: string where
  "type_not_allowed_message = ''Only KML and KMZ files are allowed''"

definition missing_presignedUrl_message :: string where
  "missing_presignedUrl_message = ''Invalid response from server: missing presignedUrl''"

definition cors_message :: string where
  "cors_message = ''CORS Error: The server is returning duplicate CORS headers. Please fix the backend Lambda function to return only one Access-Control-Allow-Origin header.''"

definition presigned_catch :: "thrown \<Rightarrow> string" where
  \<comment> \<open>the \<open>catch\<close> block: the message of the error it throws in turn\<close>
  "presigned_catch e =
     (case e of
        Err m \<Rightarrow>
          if includes_str m ''CORS'' \<or> includes_str m ''Access-Control-Allow-Origin''
          then cors_message
          else ''Failed to request presigned URL: '' @ m
      | NotAnError \<Rightarrow> ''Failed to request presigned URL: Unknown error'')"

definition presigned_try ::
  "fetch_result \<Rightarrow> nat \<Rightarrow> nat \<Rightarrow> string \<Rightarrow> string \<Rightarrow> thrown + PresignedUrlResponse" where
  \<comment> \<open>the \<open>try\<close> block, after the \<open>fetch\<close> has settled; \<open>now1\<close> and \<open>now2\<close>
      are the two readings of \<open>Date.now()\<close>\<close>
  "presigned_try fr now1 now2 fileName fileType =
     (case fr of
        FetchRejects e \<Rightarrow> Inl e
      | FetchResolves response \<Rightarrow>
          if \<not> ok response
          then Inl (Err (''Failed to get presigned URL: '' @ show_nat (resp_status response)
                          @ '' '' @ resp_statusText response))
          else (case resp_json response of
                  Inl e \<Rightarrow> Inl e
                | Inr JNull \<Rightarrow> Inl (null_property_error ''presignedUrl'')
                | Inr data \<Rightarrow>
                    if \<not> truthy (js_prop data ''presignedUrl'')
                    then Inl (Err missing_presignedUrl_message)
                    else Inr \<lparr>
                      presignedUrl = the (js_prop data ''presignedUrl''),
                      pr_fileKey =
                        or_else (js_prop data ''fileKey'')
                          (JStr (''kml-uploads/'' @ show_nat now1 @ ''-'' @ fileName)),
                      expiresIn = or_else (js_prop data ''expiresIn'') (JNum 3600),
                      pr_fields =
                        or_else (js_prop data ''fields'')
                          (JObj [(''Content-Type'', JStr fileType),
                                 (''x-amz-meta-original-name'', JStr fileName),
                                 (''x-amz-meta-upload-timestamp'', JStr (show_nat now2))])
                    \<rparr>))"

definition type_check_fails :: "string \<Rightarrow> string \<Rightarrow> bool" where
  \<comment> \<open>the condition of the second \<open>if\<close> of \<open>requestPresignedUrl\<close>\<close>
  "type_check_fails fileName fileType =
     (\<not> includes_str fileType ''application/vnd.google-earth.kml'' \<and>
      \<not> includes_str fileType ''application/vnd.google-earth.kmz'' \<and>
      \<not> endsWith (toLowerCase fileName) ''.kml'' \<and>
      \<not> endsWith (toLowerCase fileName) ''.kmz'')"

text \<open>
  \<open>requestPresignedUrl\<close> returns the list of network calls it issued (each the
  \<open>fileName\<close> of the body it posted to \<open>/api/presigned-url\<close>) with its result:
  \<open>Inl\<close> the message of the error thrown, \<open>Inr\<close> the credentials.  The parameter
  \<open>fetch\<close> is the network's answer to a posted \<open>fileName\<close>.
\<close>

definition requestPresignedUrl ::
  "(string \<Rightarrow> fetch_result) \<Rightarrow> nat \<Rightarrow> nat \<Rightarrow> string \<Rightarrow> string \<Rightarrow> nat
     \<Rightarrow> string list \<times> (string + PresignedUrlResponse)" where
  "requestPresignedUrl fetch now1 now2 fileName fileType fileSize =
     (if fileSize > 50 * 1024 * 1024 then ([], Inl size_limit_message)
      else if type_check_fails fileName fileType then ([], Inl type_not_allowed_message)
      else ([''input_kml_files/'' @ fileName],
            (case presigned_try (fetch (''input_kml_files/'' @ fileName))
                    now1 now2 fileName fileType of
               Inl e \<Rightarrow> Inl (presigned_catch e)
             | Inr r \<Rightarrow> Inr r)))"

section \<open>The API service: uploadFileToS3\<close>

text \<open>
  JavaScript numbers are IEEE-754 doubles.  A non-negative finite double is written here
  as a pair \<open>(m, e)\<close> standing for \<open>m * 2 ^ e\<close>.  Every operation computes the exact
  result and rounds it to 53 significant bits, to the nearest value and to an even
  significand on a tie, as the standard prescribes.  Overflow and subnormal results do
  not arise for byte counts, which are 64-bit unsigned integers, and are not modelled.
\<close>

type_synonym double = "nat \<times> int"

definition rne :: "nat \<Rightarrow> nat \<Rightarrow> nat" where
  \<comment> \<open>\<open>a / b\<close> rounded to the nearest integer, a tie going to the even one\<close>
  "rne a b =
     (let q = a div b; r = a mod b
      in if 2 * r < b then q
         else if b < 2 * r then q + 1
         else if even q then q else q + 1)"

function bit_length :: "nat \<Rightarrow> nat" where
  "bit_length n = (if n = 0 then 0 else Suc (bit_length (n div 2)))"
  by pat_completeness auto
termination
  by (relation "measure id") auto

declare bit_length.simps [simp del]

definition round53 :: "nat \<Rightarrow> int \<Rightarrow> double" where
  \<comment> \<open>the double nearest to \<open>m * 2 ^ e\<close>\<close>
  "round53 m e =
     (if bit_length m \<le> 53 then (m, e)
      else (rne m (2 ^ (bit_length m - 53)), e + int (bit_length m - 53)))"

definition to_double :: "nat \<Rightarrow> double" where
  \<comment> \<open>an integer as a Number\<close>
  "to_double n = round53 n 0"

definition mul_double :: "double \<Rightarrow> double \<Rightarrow> double" where
  "mul_double x y = round53 (fst x * fst y) (snd x + snd y)"

definition shifted_num :: "nat \<Rightarrow> int \<Rightarrow> nat" where
  "shifted_num a k = (if 0 \<le> k then a * 2 ^ nat k else a)"

definition shifted_den :: "nat \<Rightarrow> int \<Rightarrow> nat" where
  "shifted_den b k = (if 0 \<le> k then b else b * 2 ^ nat (- k))"

definition div_shift :: "double \<Rightarrow> double \<Rightarrow> int" where
  \<comment> \<open>the \<open>k\<close> that brings the quotient of the significands, times \<open>2 ^ k\<close>, into
      the range from \<open>2 ^ 52\<close> up to \<open>2 ^ 53\<close>\<close>
  "div_shift x y =
     (let k0 = int (bit_length (fst y)) + 53 - int (bit_length (fst x))
      in if shifted_num (fst x) k0 < shifted_den (fst y) k0 * 2 ^ 53 then k0 else k0 - 1)"

definition div_double :: "double \<Rightarrow> double \<Rightarrow> double" where
  \<comment> \<open>\<open>x / y\<close> for a positive \<open>y\<close>\<close>
  "div_double x y =
     (rne (shifted_num (fst x) (div_shift x y)) (shifted_den (fst y) (div_shift x y)),
      snd x - snd y - div_shift x y)"

definition Math_round :: "double \<Rightarrow> int" where
  \<comment> \<open>\<open>Math.round\<close>: the nearest integer, a half rounding up\<close>
  "Math_round x =
     (if 0 \<le> snd x then int (fst x * 2 ^ nat (snd x))
      else int ((2 * fst x + 2 ^ nat (- snd x)) div (2 * 2 ^ nat (- snd x))))"

text \<open>
  What \<open>Math.round\<close> returns in the progress listener: an integer, \<open>NaN\<close> (from
  \<open>0 / 0\<close>) or \<open>Infinity\<close> (from a positive number over zero).
\<close>

datatype jsnum = Finite int | NaN | Infinity

definition percentage_of :: "nat \<Rightarrow> nat \<Rightarrow> jsnum" where
  \<comment> \<open>\<open>Math.round((event.loaded / event.total) * 100)\<close>\<close>
  "percentage_of l t =
     (if t = 0 then (if l = 0 then NaN else Infinity)
      else Finite (Math_round
             (mul_double (div_double (to_double l) (to_double t)) (to_double 100))))"

definition dval :: "double \<Rightarrow> real" where
  \<comment> \<open>the real number a double stands for\<close>
  "dval x = real (fst x) * 2 powi (snd x)"

definition ulp_half :: real where
  \<comment> \<open>the largest relative error of one rounding\<close>
  "ulp_half = 1 / 2 ^ 53"

record UploadProgress =
  loaded :: nat
  total :: nat
  percentage :: jsnum

record ProgressEvent =
  lengthComputable :: bool
  ev_loaded :: nat
  ev_total :: nat

definition progress_listener :: "bool \<Rightarrow> ProgressEvent \<Rightarrow> UploadProgress option" where
  \<comment> \<open>the \<open>progress\<close> listener: the argument it passes to \<open>onProgress\<close>, if it calls it;
      the flag says whether the caller gave an \<open>onProgress\<close>\<close>
  "progress_listener has_onProgress event =
     (if lengthComputable event \<and> has_onProgress
      then Some \<lparr> loaded = ev_loaded event, total = ev_total event,
                   percentage = percentage_of (ev_loaded event) (ev_total event) \<rparr>
      else None)"

text \<open>
  The request ends in one of the three events the code listens for.  Which one is the
  browser's doing: with \<open>xhr.timeout\<close> set to a positive number of milliseconds the
  \<open>timeout\<close> event fires unless the request has ended before that time has passed.
\<close>

datatype xhr_event = LoadEvent nat | ErrorEvent | TimeoutEvent

datatype transport =
    Answers nat nat   \<comment> \<open>the store's response is complete after so many ms, with this status\<close>
  | Breaks nat        \<comment> \<open>the transport fails after so many ms\<close>
  | Silent            \<comment> \<open>nothing ever comes back\<close>

definition xhr_dispatch :: "nat \<Rightarrow> transport \<Rightarrow> xhr_event option" where
  \<comment> \<open>the event a request with the given \<open>timeout\<close> ends in (0 means no timeout);
      \<open>None\<close>: the request stays pending forever\<close>
  "xhr_dispatch timeout_ms tr =
     (case tr of
        Answers t st \<Rightarrow>
          if timeout_ms \<noteq> 0 \<and> timeout_ms \<le> t then Some TimeoutEvent else Some (LoadEvent st)
      | Breaks t \<Rightarrow>
          if timeout_ms \<noteq> 0 \<and> timeout_ms \<le> t then Some TimeoutEvent else Some ErrorEvent
      | Silent \<Rightarrow> if timeout_ms \<noteq> 0 then Some TimeoutEvent else None)"

definition fileKey_of_url :: "string \<Rightarrow> nat \<Rightarrow> string \<Rightarrow> string" where
  \<comment> \<open>\<open>presignedUrl.split('/').pop()?.split('?')[0] || `input_kml_files/${Date.now()}-${name}`\<close>\<close>
  "fileKey_of_url url now nm =
     (case pop (split_on (CHR ''/'') url) of
        None \<Rightarrow> ''input_kml_files/'' @ show_nat now @ ''-'' @ nm
      | Some seg \<Rightarrow>
          (case split_on (CHR ''?'') seg of
             [] \<Rightarrow> ''input_kml_files/'' @ show_nat now @ ''-'' @ nm
           | k # _ \<Rightarrow> if k = [] then ''input_kml_files/'' @ show_nat now @ ''-'' @ nm else k))"

definition xhr_settle :: "string \<Rightarrow> File \<Rightarrow> nat \<Rightarrow> xhr_event \<Rightarrow> string + string" where
  \<comment> \<open>the \<open>load\<close>, \<open>error\<close> and \<open>timeout\<close> listeners: reject (\<open>Inl\<close>) or resolve\<close>
  "xhr_settle url file now ev =
     (case ev of
        LoadEvent st \<Rightarrow>
          if 200 \<le> st \<and> st < 300 then Inr (fileKey_of_url url now (file_name file))
          else Inl (''Upload failed with status: '' @ show_nat st)
      | ErrorEvent \<Rightarrow> Inl ''Upload failed due to network error''
      | TimeoutEvent \<Rightarrow> Inl ''Upload timed out'')"

definition uploadFileToS3 ::
  "File \<Rightarrow> string \<Rightarrow> json \<Rightarrow> bool \<Rightarrow> nat \<Rightarrow> ProgressEvent list \<Rightarrow> transport
     \<Rightarrow> UploadProgress list \<times> (string + string) option" where
  \<comment> \<open>the calls of \<open>onProgress\<close>, and how the promise settles (\<open>None\<close>: never);
      \<open>flds\<close>, the source's \<open>fields\<close>, is not read by the body\<close>
  "uploadFileToS3 file url flds has_onProgress now events tr =
     (List.map_filter (progress_listener has_onProgress) events,
      map_option (xhr_settle url file now) (xhr_dispatch 30000 tr))"

definition spec_url_key :: "string \<Rightarrow> string" where
  \<comment> \<open>the specification's wording: the text after the last slash of the URL, cut before
      the first question mark\<close>
  "spec_url_key url =
     takeWhile (\<lambda>c. c \<noteq> CHR ''?'') (rev (takeWhile (\<lambda>c. c \<noteq> CHR ''/'') (rev url)))"

section \<open>The API service: processKmlFile\<close>

text \<open>
  After its two-second delay the function builds the identifier from \<open>Date.now()\<close>
  and from \<open>rnd36\<close>, the text of \<open>Math.random().toString(36)\<close>: \<open>0\<close> for a draw of
  zero, otherwise \<open>0.\<close> and the base-36 digits of the fraction (a draw of one half
  gives \<open>0.i\<close>).  No statement of the body throws; the result is \<open>Inr\<close>.
\<close>

definition processKmlFile :: "string \<Rightarrow> nat \<Rightarrow> string \<Rightarrow> thrown + string" where
  "processKmlFile fileKey now rnd36 =
     Inr (''analysis-'' @ show_nat now @ ''-'' @ substr rnd36 2 9)"

definition is_digit :: "char \<Rightarrow> bool" where
  "is_digit c = (c \<in> set ''0123456789'')"

definition is_base36 :: "char \<Rightarrow> bool" where
  "is_base36 c = (c \<in> set ''0123456789abcdefghijklmnopqrstuvwxyz'')"

definition matches_analysis_pattern :: "string \<Rightarrow> bool" where
  \<comment> \<open>a full match of \<open>analysis-\d+-[a-z0-9]{9}\<close>\<close>
  "matches_analysis_pattern s =
     (startsWith s ''analysis-'' \<and>
      takeWhile is_digit (drop 9 s) \<noteq> [] \<and>
      (case dropWhile is_digit (drop 9 s) of
         [] \<Rightarrow> False
       | c # r \<Rightarrow> c = CHR ''-'' \<and> length r = 9 \<and> list_all is_base36 r))"

section \<open>The proxy routes\<close>

text \<open>
  A route's answer: the HTTP status, the JSON body, and whether the three CORS headers
  were set on it.
\<close>

record HttpResponse =
  http_status :: nat
  http_body :: json
  cors_headers :: bool

definition internal_server_error :: HttpResponse where
  "internal_server_error =
     \<lparr> http_status = 500, http_body = JObj [(''error'', JStr ''Internal server error'')],
       cors_headers = False \<rparr>"

definition response_json_throws :: "nat \<Rightarrow> bool" where
  \<comment> \<open>\<open>NextResponse.json\<close> throws for a status outside 200 to 599 and for a status
      that admits no body; inside the route the \<open>catch\<close> block then answers 500\<close>
  "response_json_throws st =
     (st < 200 \<or> 599 < st \<or> st = 204 \<or> st = 205 \<or> st = 304)"

definition original_name :: "string \<Rightarrow> string" where
  \<comment> \<open>\<open>fileName.split('/').pop() || fileName\<close>\<close>
  "original_name fileName =
     (case pop (split_on (CHR ''/'') fileName) of
        None \<Rightarrow> fileName
      | Some seg \<Rightarrow> if seg = [] then fileName else seg)"

definition amz_date :: "string \<Rightarrow> string" where
  \<comment> \<open>\<open>new Date().toISOString().replace(/[-:]/g, '').split('.')[0]\<close>, from the ISO text\<close>
  "amz_date isoText =
     (case split_on (CHR ''.'') (filter (\<lambda>c. c \<noteq> CHR ''-'' \<and> c \<noteq> CHR '':'') isoText) of
        [] \<Rightarrow> ''undefined''
      | d # _ \<Rightarrow> d)"

definition mock_presignedUrl :: "string \<Rightarrow> string \<Rightarrow> string" where
  "mock_presignedUrl fileName isoText =
     ''https://mock-s3-bucket.s3.amazonaws.com/'' @ fileName
       @ ''?X-Amz-Algorithm=AWS4-HMAC-SHA256&X-Amz-Credential=mock&X-Amz-Date=''
       @ amz_date isoText
       @ ''Z&X-Amz-Expires=3600&X-Amz-SignedHeaders=host&X-Amz-Signature=mock''"

definition fallbackData :: "string \<Rightarrow> string \<Rightarrow> nat \<Rightarrow> json" where
  "fallbackData fileName isoText now =
     JObj [(''presignedUrl'', JStr (mock_presignedUrl fileName isoText)),
           (''fileKey'', JStr fileName),
           (''expiresIn'', JNum 3600),
           (''fields'',
              JObj [(''Content-Type'', JStr ''application/vnd.google-earth.kml''),
                    (''x-amz-meta-original-name'', JStr (original_name fileName)),
                    (''x-amz-meta-upload-timestamp'', JStr (show_nat now))])]"

definition transformedData :: "json \<Rightarrow> string \<Rightarrow> nat \<Rightarrow> json" where
  "transformedData data fileName now =
     JObj [(''presignedUrl'', the (js_prop data ''uploadUrl'')),
           (''fileKey'', or_else (js_prop data ''fileKey'') (JStr fileName)),
           (''expiresIn'', or_else (js_prop data ''expiresIn'') (JNum 3600)),
           (''fields'',
              or_else (js_prop data ''fields'')
                (JObj [(''x-amz-meta-original-name'', JStr (original_name fileName)),
                       (''x-amz-meta-upload-timestamp'', JStr (show_nat now))]))]"

text \<open>
  \<open>POST /api/presigned-url\<close>.  The request is \<open>Inl\<close> when reading or destructuring
  its body throws, else the body's \<open>fileName\<close> (\<open>None\<close> when absent); the body is
  taken to be as the route's caller sends it, with a string for \<open>fileName\<close>.
  \<open>upstream\<close> is the Lambda function's answer to a posted \<open>fileName\<close>, \<open>isoText\<close> the
  text of \<open>new Date().toISOString()\<close> and \<open>now\<close> the reading of \<open>Date.now()\<close>.
\<close>

definition presigned_url_POST ::
  "thrown + string option \<Rightarrow> (string \<Rightarrow> fetch_result) \<Rightarrow> string \<Rightarrow> nat \<Rightarrow> HttpResponse" where
  "presigned_url_POST request upstream isoText now =
     (case request of
        Inl e \<Rightarrow> internal_server_error
      | Inr None \<Rightarrow>
          \<lparr> http_status = 400, http_body = JObj [(''error'', JStr ''fileName is required'')],
            cors_headers = False \<rparr>
      | Inr (Some fileName) \<Rightarrow>
          if fileName = []
          then \<lparr> http_status = 400, http_body = JObj [(''error'', JStr ''fileName is required'')],
                 cors_headers = False \<rparr>
          else (case upstream fileName of
                  FetchRejects e \<Rightarrow> internal_server_error
                | FetchResolves response \<Rightarrow>
                    if \<not> ok response
                    then (if response_json_throws (resp_status response)
                          then internal_server_error
                          else \<lparr> http_status = resp_status response,
                                 http_body = JObj [(''error'',
                                    JStr (''Lambda function returned ''
                                          @ show_nat (resp_status response)
                                          @ '': '' @ resp_statusText response))],
                                 cors_headers = False \<rparr>)
                    else (case resp_json response of
                            Inl e \<Rightarrow> internal_server_error
                          | Inr JNull \<Rightarrow> internal_server_error
                          | Inr data \<Rightarrow>
                              if \<not> truthy (js_prop data ''uploadUrl'')
                              then \<lparr> http_status = 200,
                                     http_body = fallbackData fileName isoText now,
                                     cors_headers = True \<rparr>
                              else \<lparr> http_status = 200,
                                     http_body = transformedData data fileName now,
                                     cors_headers = True \<rparr>)))"

text \<open>
  \<open>POST /api/upload-proxy\<close>.  The request is \<open>Inl\<close> when reading the form data
  throws, else the form's \<open>file\<close> and \<open>presignedUrl\<close> entries; \<open>put\<close> is the store's
  answer to the \<open>PUT\<close> at a URL.
\<close>

definition upload_failed :: HttpResponse where
  "upload_failed =
     \<lparr> http_status = 500, http_body = JObj [(''error'', JStr ''Upload failed'')],
       cors_headers = False \<rparr>"

definition upload_proxy_POST ::
  "thrown + File option \<times> string option \<Rightarrow> (string \<Rightarrow> fetch_result) \<Rightarrow> nat \<Rightarrow> HttpResponse" where
  "upload_proxy_POST request put now =
     (case request of
        Inl e \<Rightarrow> upload_failed
      | Inr (Some file, Some url) \<Rightarrow>
          if url = []
          then \<lparr> http_status = 400,
                 http_body = JObj [(''error'', JStr ''File and presignedUrl are required'')],
                 cors_headers = False \<rparr>
          else (case put url of
                  FetchRejects e \<Rightarrow> upload_failed
                | FetchResolves uploadResponse \<Rightarrow>
                    if \<not> ok uploadResponse then upload_failed
                    else \<lparr> http_status = 200,
                           http_body = JObj [(''success'', JBool True),
                                             (''fileKey'', JStr (fileKey_of_url url now (file_name file))),
                                             (''message'', JStr ''File uploaded successfully'')],
                           cors_headers = False \<rparr>)
      | Inr _ \<Rightarrow>
          \<lparr> http_status = 400,
            http_body = JObj [(''error'', JStr ''File and presignedUrl are required'')],
            cors_headers = False \<rparr>)"

section \<open>The file-upload component: state and handlers\<close>

datatype status = Idle | Uploading | Success | Error

record UploadStatus =
  status :: status
  progress :: UploadProgress
  error :: "string option"
  fileKey :: "string option"

record FileUpload =
  uploadStatus :: UploadStatus
  selectedFile :: "File option"

definition no_progress :: UploadProgress where
  "no_progress = \<lparr> loaded = 0, total = 0, percentage = Finite 0 \<rparr>"

definition initial :: FileUpload where
  \<comment> \<open>the two \<open>useState\<close> initial values\<close>
  "initial =
     \<lparr> uploadStatus = \<lparr> status = Idle, progress = no_progress, error = None, fileKey = None \<rparr>,
       selectedFile = None \<rparr>"

definition handleFileSelect :: "FileUploadProps \<Rightarrow> File \<Rightarrow> FileUpload \<Rightarrow> FileUpload" where
  "handleFileSelect P file s =
     (case validateFile P file of
        Some validationError \<Rightarrow>
          s\<lparr> uploadStatus :=
               \<lparr> status = Error, progress = no_progress, error = Some validationError,
                 fileKey = None \<rparr> \<rparr>
      | None \<Rightarrow>
          s\<lparr> selectedFile := Some file,
             uploadStatus :=
               \<lparr> status = Idle, progress = no_progress, error = None, fileKey = None \<rparr> \<rparr>)"

text \<open>
  \<open>handleUpload\<close> is asynchronous.  Its synchronous start sets the status to
  \<open>uploading\<close>; what it does later arrives as separate updates of the state: each
  call of the progress callback, the update after the three stages have all succeeded,
  and the \<open>catch\<close> block after the first stage that fails.
\<close>

definition handleUpload_start :: "FileUpload \<Rightarrow> FileUpload" where
  "handleUpload_start s =
     (case selectedFile s of
        None \<Rightarrow> s
      | Some file \<Rightarrow> s\<lparr> uploadStatus := (uploadStatus s)\<lparr> status := Uploading \<rparr> \<rparr>)"

definition handleUpload_progress :: "UploadProgress \<Rightarrow> FileUpload \<Rightarrow> FileUpload" where
  "handleUpload_progress p s = s\<lparr> uploadStatus := (uploadStatus s)\<lparr> progress := p \<rparr> \<rparr>"

definition handleUpload_success :: "string \<Rightarrow> FileUpload \<Rightarrow> FileUpload" where
  "handleUpload_success k s =
     s\<lparr> uploadStatus := (uploadStatus s)\<lparr> status := Success, fileKey := Some k \<rparr> \<rparr>"

definition handleUpload_catch :: "thrown \<Rightarrow> FileUpload \<Rightarrow> FileUpload" where
  "handleUpload_catch e s =
     s\<lparr> uploadStatus :=
          \<lparr> status = Error, progress = no_progress,
            error = Some (case e of Err m \<Rightarrow> m | NotAnError \<Rightarrow> ''Upload failed''),
            fileKey = None \<rparr> \<rparr>"

definition clearFile :: "FileUpload \<Rightarrow> FileUpload" where
  "clearFile s =
     s\<lparr> selectedFile := None,
        uploadStatus :=
          \<lparr> status = Idle, progress = no_progress, error = None, fileKey = None \<rparr> \<rparr>"

definition upload_button_shown :: "FileUpload \<Rightarrow> bool" where
  \<comment> \<open>the render condition of the button that calls \<open>handleUpload\<close>:
      \<open>selectedFile && uploadStatus.status === 'idle'\<close>\<close>
  "upload_button_shown s = (selectedFile s \<noteq> None \<and> status (uploadStatus s) = Idle)"

text \<open>
  What can happen to the component: a file is dropped or picked (the drop target is
  there in every state), the upload button is clicked (when it is rendered), a running
  \<open>handleUpload\<close> reports progress, completes or fails, or \<open>clearFile\<close> is called
  from one of its buttons.
\<close>

datatype event =
    FileChosen File
  | UploadClicked
  | ProgressReported UploadProgress
  | StagesCompleted string
  | StageFailed thrown
  | ClearClicked

fun step :: "FileUploadProps \<Rightarrow> FileUpload \<Rightarrow> event \<Rightarrow> FileUpload" where
  "step P s (FileChosen file) = handleFileSelect P file s"
| "step P s UploadClicked = (if upload_button_shown s then handleUpload_start s else s)"
| "step P s (ProgressReported p) = handleUpload_progress p s"
| "step P s (StagesCompleted k) = handleUpload_success k s"
| "step P s (StageFailed e) = handleUpload_catch e s"
| "step P s ClearClicked = clearFile s"

definition run :: "FileUploadProps \<Rightarrow> FileUpload \<Rightarrow> event list \<Rightarrow> FileUpload" where
  "run P s evs = foldl (step P) s evs"

definition state_of :: "FileUpload \<Rightarrow> status" where
  "state_of s = status (uploadStatus s)"

fun stage :: "status \<Rightarrow> nat" where
  \<comment> \<open>the position of a state along Idle, Uploading, Success or Error\<close>
  "stage Idle = 0"
| "stage Uploading = 1"
| "stage Success = 2"
| "stage Error = 2"

definition parcel_kml :: File where
  "parcel_kml =
     \<lparr> file_name = ''parcel.kml'', file_type = ''application/vnd.google-earth.kml'',
       file_size = 2097152 \<rparr>"

section \<open>Properties of the string helpers\<close>

lemma show_nat_numeral:
  "show_nat (numeral k) =
     (if (numeral k :: nat) < 10 then [digit_char (numeral k)]
      else show_nat (numeral k div 10) @ [digit_char (numeral k mod 10)])"
  by (rule show_nat.simps)

lemma show_nat_0: "show_nat 0 = ''0''"
  by (simp add: show_nat.simps [of 0] digit_char_def)

lemma show_nat_1: "show_nat (Suc 0) = ''1''"
  by (simp add: show_nat.simps [of "Suc 0"] digit_char_def)

lemmas show_nat_eval = show_nat_numeral show_nat_0 show_nat_1 digit_char_def

lemma split_on_nonempty: "split_on c s \<noteq> []"
  by (induction s) (auto split: list.splits)

lemma split_on_single: "c \<notin> set s \<Longrightarrow> split_on c s = [s]"
  by (induction s) auto

lemma split_on_many: "c \<in> set s \<Longrightarrow> tl (split_on c s) \<noteq> []"
  by (induction s) (auto simp: split_on_nonempty split: list.splits)

lemma takeWhile_snoc:
  "takeWhile P (ys @ [x]) =
     (if \<forall>y\<in>set ys. P y then ys @ (if P x then [x] else []) else takeWhile P ys)"
  by (induction ys) auto

lemma last_split_on:
  "last (split_on c s) = rev (takeWhile (\<lambda>x. x \<noteq> c) (rev s))"
proof (induction s)
  case Nil
  show ?case by simp
next
  case (Cons x xs)
  show ?case
  proof (cases "c \<in> set xs")
    case True
    obtain t ts where ts: "split_on c xs = t # ts"
      using split_on_nonempty [of c xs] by (cases "split_on c xs") auto
    from split_on_many [OF True] ts have "ts \<noteq> []" by simp
    with Cons ts True show ?thesis
      by (auto simp: takeWhile_snoc)
  next
    case False
    with Cons split_on_single [OF False] show ?thesis
      by (auto simp: takeWhile_snoc)
  qed
qed

lemma hd_split_on: "hd (split_on c s) = takeWhile (\<lambda>x. x \<noteq> c) s"
  by (induction s) (auto split: list.splits simp: split_on_nonempty)

lemma fileKey_of_url_spec:
  "fileKey_of_url url now nm =
     (if spec_url_key url = [] then ''input_kml_files/'' @ show_nat now @ ''-'' @ nm
      else spec_url_key url)"
proof -
  let ?seg = "rev (takeWhile (\<lambda>c. c \<noteq> CHR ''/'') (rev url))"
  have p: "pop (split_on (CHR ''/'') url) = Some ?seg"
    by (simp add: pop_def split_on_nonempty last_split_on)
  obtain k ks where ks: "split_on (CHR ''?'') ?seg = k # ks"
    using split_on_nonempty [of "CHR ''?''" ?seg] by (cases "split_on (CHR ''?'') ?seg") auto
  from hd_split_on [of "CHR ''?''" ?seg] ks have k: "k = spec_url_key url"
    by (simp add: spec_url_key_def)
  show ?thesis
    unfolding fileKey_of_url_def p using ks k by simp
qed













section \<open>Properties of the double arithmetic\<close>

lemma bit_length_numeral:
  "bit_length (numeral k) =
     (if (numeral k :: nat) = 0 then 0 else Suc (bit_length (numeral k div 2)))"
  by (rule bit_length.simps)

lemma bit_length_0: "bit_length 0 = 0"
  by (simp add: bit_length.simps)

lemma bit_length_1: "bit_length (Suc 0) = Suc 0"
  by (simp add: bit_length.simps [of "Suc 0"] bit_length_0)

lemmas double_eval = bit_length_numeral bit_length_0 bit_length_1 rne_def round53_def
  to_double_def mul_double_def shifted_num_def shifted_den_def div_shift_def div_double_def
  Math_round_def Let_def

lemma bit_length_upper: "n < 2 ^ bit_length n"
proof (induction n rule: bit_length.induct)
  case (1 n)
  show ?case
  proof (cases "n = 0")
    case True
    then show ?thesis by (simp add: bit_length.simps)
  next
    case False
    with "1" have "n div 2 < 2 ^ bit_length (n div 2)" by simp
    then have "n < 2 * 2 ^ bit_length (n div 2)" by linarith
    with False show ?thesis by (subst bit_length.simps) simp
  qed
qed

lemma bit_length_lower: "0 < n \<Longrightarrow> 2 ^ (bit_length n - 1) \<le> n"
proof (induction n rule: bit_length.induct)
  case (1 n)
  show ?case
  proof (cases "n div 2 = 0")
    case True
    with "1.prems" have "n = 1" by linarith
    then show ?thesis by (simp add: bit_length_1)
  next
    case False
    with "1" have ih: "2 ^ (bit_length (n div 2) - 1) \<le> n div 2" by simp
    from False have pos: "0 < bit_length (n div 2)"
      by (subst bit_length.simps) simp
    have "bit_length n = Suc (bit_length (n div 2))"
      using "1.prems" by (subst bit_length.simps) simp
    then have "(2::nat) ^ (bit_length n - 1) = 2 * 2 ^ (bit_length (n div 2) - 1)"
      using pos by (cases "bit_length (n div 2)") simp_all
    with ih show ?thesis by linarith
  qed
qed

lemma bit_length_pos: "0 < n \<Longrightarrow> 0 < bit_length n"
  by (subst bit_length.simps) simp

lemma bit_length_mono: "l \<le> t \<Longrightarrow> bit_length l \<le> bit_length t"
proof (rule ccontr)
  assume lt: "l \<le> t" and "\<not> bit_length l \<le> bit_length t"
  then have gt: "bit_length t < bit_length l" by simp
  then have "0 < l" using bit_length.simps [of l] by (cases "l = 0") simp_all
  from gt have "bit_length t \<le> bit_length l - 1" by simp
  then have "(2::nat) ^ bit_length t \<le> 2 ^ (bit_length l - 1)"
    by (rule power_increasing) simp
  with bit_length_upper [of t] bit_length_lower [OF \<open>0 < l\<close>] lt show False by linarith
qed

lemma rne_le: "0 < b \<Longrightarrow> a \<le> c * b \<Longrightarrow> rne a b \<le> c"
proof -
  assume b: "0 < b" and le: "a \<le> c * b"
  have q: "a div b \<le> c" using div_le_mono [OF le, of b] b by simp
  show ?thesis
  proof (cases "a div b = c")
    case True
    have "a = (a div b) * b + a mod b" by simp
    with True le have "a mod b = 0" by (metis add_diff_cancel_left' diff_is_0_eq')
    with True b show ?thesis by (simp add: rne_def Let_def)
  next
    case False
    with q have "a div b + 1 \<le> c" by simp
    then show ?thesis by (simp add: rne_def Let_def)
  qed
qed

lemma rne_ge: "0 < b \<Longrightarrow> c * b \<le> a \<Longrightarrow> c \<le> rne a b"
proof -
  assume b: "0 < b" and le: "c * b \<le> a"
  then have "c \<le> a div b" by (simp add: less_eq_div_iff_mult_less_eq)
  then show ?thesis by (simp add: rne_def Let_def)
qed

lemma rne_mono: "0 < b \<Longrightarrow> a \<le> a' \<Longrightarrow> rne a b \<le> rne a' b"
proof -
  assume b: "0 < b" and le: "a \<le> a'"
  have q: "a div b \<le> a' div b" using le by (rule div_le_mono)
  show ?thesis
  proof (cases "a div b = a' div b")
    case True
    have "a = (a div b) * b + a mod b" "a' = (a' div b) * b + a' mod b" by simp_all
    with True le have "a mod b \<le> a' mod b"
      by (metis add_le_cancel_left)
    with True show ?thesis by (auto simp add: rne_def Let_def)
  next
    case False
    with q have "a div b + 1 \<le> a' div b" by simp
    then show ?thesis by (auto simp add: rne_def Let_def)
  qed
qed

lemma rne_near: "0 < b \<Longrightarrow> \<bar>real (rne a b) - real a / real b\<bar> \<le> 1 / 2"
proof -
  assume b: "0 < b"
  have a: "real a = real (a div b) * real b + real (a mod b)"
    by (metis of_nat_add of_nat_mult div_mult_mod_eq)
  have r: "a mod b < b" using b by simp
  from b have quot: "real a / real b = real (a div b) + real (a mod b) / real b"
    by (subst a) (simp add: field_simps)
  have "2 * (a mod b) < b \<Longrightarrow> real (a mod b) / real b \<le> 1 / 2"
  proof -
    assume "2 * (a mod b) < b"
    then have "2 * real (a mod b) \<le> real b" by linarith
    with b show ?thesis by (simp add: field_simps)
  qed
  moreover have "\<not> 2 * (a mod b) < b \<Longrightarrow> 1 / 2 \<le> real (a mod b) / real b"
  proof -
    assume "\<not> 2 * (a mod b) < b"
    then have "real b \<le> 2 * real (a mod b)" by linarith
    with b show ?thesis by (simp add: field_simps)
  qed
  moreover have "real (a mod b) / real b \<le> 1" "0 \<le> real (a mod b) / real b"
    using b r by (simp_all add: field_simps)
  moreover have "2 * (a mod b) = b \<Longrightarrow> real (a mod b) / real b = 1 / 2"
  proof -
    assume "2 * (a mod b) = b"
    then have "real b = 2 * real (a mod b)" by (metis of_nat_mult of_nat_numeral)
    with b show ?thesis by (simp add: field_simps)
  qed
  ultimately show ?thesis
    unfolding quot by (auto simp add: rne_def Let_def abs_le_iff not_less)
qed

lemma two_powi_le: "(2::real) powi i \<le> 2 powi j \<longleftrightarrow> i \<le> j"
proof
  assume le: "(2::real) powi i \<le> 2 powi j"
  show "i \<le> j"
  proof (rule ccontr)
    assume "\<not> i \<le> j"
    then have "j < i" by simp
    then have "(2::real) powi j < 2 powi i" by (rule power_int_strict_increasing) simp
    with le show False by simp
  qed
next
  assume "i \<le> j"
  then show "(2::real) powi i \<le> 2 powi j" by (rule power_int_increasing) simp
qed

lemma two_powi_less: "(2::real) powi i < 2 powi j \<longleftrightarrow> i < j"
  using two_powi_le [of j i] by (simp add: not_le [symmetric])

lemma two_powi_add: "(2::real) powi (m + n) = 2 powi m * 2 powi n"
  by (rule power_int_add) simp

lemma powi_split3:
  "(2::real) powi (e + int s + int j) = 2 ^ j * 2 ^ s * 2 powi e"
  by (simp add: two_powi_add)

lemma powi_split2: "(2::real) powi (e + int s) = 2 ^ s * 2 powi e"
  by (simp add: two_powi_add)

lemma round53_exact: "bit_length m \<le> 53 \<Longrightarrow> round53 m e = (m, e)"
  by (simp add: round53_def)

lemma round53_wide:
  "\<not> bit_length m \<le> 53 \<Longrightarrow>
     round53 m e = (rne m (2 ^ (bit_length m - 53)), e + int (bit_length m - 53))"
  by (simp add: round53_def)

lemma wide_lower:
  assumes "\<not> bit_length m \<le> 53"
  shows "2 ^ 52 * 2 ^ (bit_length m - 53) \<le> m"
proof -
  from assms have "0 < m" using bit_length.simps [of m] by (cases "m = 0") simp_all
  from assms have "bit_length m - 1 = 52 + (bit_length m - 53)" by simp
  then have "(2::nat) ^ (bit_length m - 1) = 2 ^ 52 * 2 ^ (bit_length m - 53)"
    by (simp only: power_add)
  with bit_length_lower [OF \<open>0 < m\<close>] show ?thesis by (simp only:)
qed

lemma scaled_le_cancel:
  "real a * 2 powi e \<le> real b * 2 powi e \<longleftrightarrow> a \<le> b"
proof -
  have "(0::real) < 2 powi e" by simp
  then have "real a * 2 powi e \<le> real b * 2 powi e \<longleftrightarrow> real a \<le> real b"
    by (rule mult_le_cancel_right_pos)
  then show ?thesis by simp
qed

lemma round53_le:
  assumes le: "real m * 2 powi e \<le> real c * 2 powi ec" and c: "c < 2 ^ 53"
  shows "dval (round53 m e) \<le> real c * 2 powi ec"
proof (cases "bit_length m \<le> 53")
  case True
  with le show ?thesis by (simp add: round53_exact dval_def)
next
  case False
  define s where "s = bit_length m - 53"
  have low: "2 ^ 52 * 2 ^ s \<le> m" using wide_lower [OF False] by (simp add: s_def)
  have "real (2 ^ 52 * 2 ^ s) * 2 powi e \<le> real m * 2 powi e"
    using low by (simp only: scaled_le_cancel)
  also note le
  also have "real c * 2 powi ec < real (2 ^ 53) * 2 powi ec"
    using c by (intro mult_strict_right_mono) (simp_all only: of_nat_less_iff zero_less_power_int zero_less_numeral)
  finally have "real (2 ^ 52 * 2 ^ s) * 2 powi e < real (2 ^ 53) * 2 powi ec" .
  moreover have "(2::real) powi (e + int s + 52) = real (2 ^ 52 * 2 ^ s) * 2 powi e"
    using powi_split3 [of e s 52] by simp
  moreover have "(2::real) powi (ec + 53) = real (2 ^ 53) * 2 powi ec"
    using powi_split2 [of ec 53] by simp
  ultimately have "(2::real) powi (e + int s + 52) < 2 powi (ec + 53)"
    by (simp only:)
  then have "e + int s + 52 < ec + 53" by (simp only: two_powi_less)
  then have exp: "e + int s \<le> ec" by simp
  define j where "j = nat (ec - e - int s)"
  have ec: "ec = e + int s + int j" using exp by (simp add: j_def)
  have eq: "real c * 2 powi ec = real (c * 2 ^ j * 2 ^ s) * 2 powi e"
    unfolding ec powi_split3 by simp
  from le have "m \<le> c * 2 ^ j * 2 ^ s" by (simp only: eq scaled_le_cancel)
  then have "rne m (2 ^ s) \<le> c * 2 ^ j" by (intro rne_le) simp_all
  then have "real (rne m (2 ^ s)) * 2 powi (e + int s) \<le> real (c * 2 ^ j) * 2 powi (e + int s)"
    by (simp only: scaled_le_cancel)
  also have "\<dots> = real c * 2 powi ec"
    unfolding ec powi_split3 powi_split2 by simp
  finally show ?thesis using False by (simp add: round53_wide dval_def s_def)
qed

lemma round53_ge:
  assumes le: "real c * 2 powi ec \<le> real m * 2 powi e" and c: "c < 2 ^ 53"
  shows "real c * 2 powi ec \<le> dval (round53 m e)"
proof (cases "bit_length m \<le> 53")
  case True
  with le show ?thesis by (simp add: round53_exact dval_def)
next
  case False
  define s where "s = bit_length m - 53"
  have low: "2 ^ 52 * 2 ^ s \<le> m" using wide_lower [OF False] by (simp add: s_def)
  have big: "2 ^ 52 \<le> rne m (2 ^ s)" using low by (intro rne_ge) simp_all
  have val: "dval (round53 m e) = real (rne m (2 ^ s)) * 2 powi (e + int s)"
    using False by (simp add: round53_wide dval_def s_def)
  show ?thesis
  proof (cases "e + int s \<le> ec")
    case True
    define j where "j = nat (ec - e - int s)"
    have ec: "ec = e + int s + int j" using True by (simp add: j_def)
    have eq: "real c * 2 powi ec = real (c * 2 ^ j * 2 ^ s) * 2 powi e"
      unfolding ec powi_split3 by simp
    from le have "c * 2 ^ j * 2 ^ s \<le> m" by (simp only: eq scaled_le_cancel)
    then have "c * 2 ^ j \<le> rne m (2 ^ s)" by (intro rne_ge) simp_all
    then have "real (c * 2 ^ j) * 2 powi (e + int s) \<le> real (rne m (2 ^ s)) * 2 powi (e + int s)"
      by (simp only: scaled_le_cancel)
    moreover have "real (c * 2 ^ j) * 2 powi (e + int s) = real c * 2 powi ec"
      unfolding ec powi_split3 powi_split2 by simp
    ultimately show ?thesis by (simp only: val)
  next
    case False
    then have "ec + 1 \<le> e + int s" by simp
    then have p: "(2::real) powi (ec + 1) \<le> 2 powi (e + int s)" by (simp only: two_powi_le)
    from c have "real c \<le> real (2 ^ 53)" by (simp only: of_nat_le_iff less_imp_le)
    then have "real c * 2 powi ec \<le> real (2 ^ 53) * 2 powi ec"
      by (intro mult_right_mono) simp_all
    also have "\<dots> = 2 ^ 52 * 2 powi (ec + 1)"
      using powi_split2 [of ec 1] by simp
    also have "\<dots> \<le> 2 ^ 52 * 2 powi (e + int s)"
      using p by (intro mult_left_mono) simp_all
    also have "\<dots> = real (2 ^ 52) * 2 powi (e + int s)" by simp
    also have "\<dots> \<le> real (rne m (2 ^ s)) * 2 powi (e + int s)"
      using big by (simp only: scaled_le_cancel)
    finally show ?thesis by (simp only: val)
  qed
qed

lemma dval_exact: "bit_length n \<le> 53 \<Longrightarrow> dval (to_double n) = real n"
  by (simp add: to_double_def round53_exact dval_def)

lemma to_double_mono:
  assumes "l \<le> t"
  shows "dval (to_double l) \<le> dval (to_double t)"
proof (cases "bit_length t \<le> 53")
  case True
  with bit_length_mono [OF assms] have "bit_length l \<le> 53" by simp
  with True assms show ?thesis by (simp add: dval_exact)
next
  case False
  show ?thesis
  proof (cases "bit_length l = bit_length t")
    case True
    with False have wl: "\<not> bit_length l \<le> 53" by simp
    have "rne l (2 ^ (bit_length t - 53)) \<le> rne t (2 ^ (bit_length t - 53))"
      using assms by (intro rne_mono) simp_all
    then have "real (rne l (2 ^ (bit_length t - 53))) * 2 powi (0 + int (bit_length t - 53))
        \<le> real (rne t (2 ^ (bit_length t - 53))) * 2 powi (0 + int (bit_length t - 53))"
      by (simp only: scaled_le_cancel)
    then show ?thesis
      using False wl True by (simp only: to_double_def round53_wide dval_def fst_conv snd_conv)
  next
    case neq: False
    with bit_length_mono [OF assms] have lt: "bit_length l \<le> bit_length t - 1" by simp
    from False have tpos: "0 < t" using bit_length.simps [of t] by (cases "t = 0") simp_all
    have "real l * 2 powi 0 \<le> real 1 * 2 powi (int (bit_length l))"
      using bit_length_upper [of l] by (simp add: less_imp_le flip: of_nat_power)
    then have up: "dval (to_double l) \<le> real 1 * 2 powi (int (bit_length l))"
      unfolding to_double_def by (rule round53_le) simp
    have "real 1 * 2 powi (int (bit_length t - 1)) \<le> real t * 2 powi 0"
      using bit_length_lower [OF tpos] by (simp flip: of_nat_power)
    then have low: "real 1 * 2 powi (int (bit_length t - 1)) \<le> dval (to_double t)"
      unfolding to_double_def by (rule round53_ge) simp
    from lt have "(2::real) powi (int (bit_length l)) \<le> 2 powi (int (bit_length t - 1))"
      by (simp only: two_powi_le of_nat_le_iff)
    then have "real 1 * 2 powi (int (bit_length l)) \<le> real 1 * 2 powi (int (bit_length t - 1))"
      by simp
    with up low show ?thesis by linarith
  qed
qed

lemma to_double_pos: "0 < t \<Longrightarrow> 0 < fst (to_double t)"
proof -
  assume "0 < t"
  then have "real 1 * 2 powi 0 \<le> real t * 2 powi 0" by simp
  then have "real 1 * 2 powi 0 \<le> dval (to_double t)"
    unfolding to_double_def by (rule round53_ge) simp
  then have "0 < dval (to_double t)" by simp
  then show ?thesis
    by (cases "fst (to_double t) = 0") (simp_all add: dval_def)
qed

lemma shifted_den_pos: "0 < b \<Longrightarrow> 0 < shifted_den b k"
  by (simp add: shifted_den_def)

lemma shifted_quot:
  "0 < b \<Longrightarrow>
     real (shifted_num a k) / real (shifted_den b k) = real a * 2 powi k / real b"
  by (simp add: shifted_num_def shifted_den_def power_int_def field_simps)

lemma Math_round_floor: "Math_round x = \<lfloor>dval x + 1 / 2\<rfloor>"
proof (cases "0 \<le> snd x")
  case True
  then have "dval x = real (fst x * 2 ^ nat (snd x))"
    by (simp add: dval_def power_int_def)
  then have "\<lfloor>dval x + 1 / 2\<rfloor> = int (fst x * 2 ^ nat (snd x))"
    by (simp only:) linarith
  with True show ?thesis by (simp add: Math_round_def)
next
  case False
  define d :: nat where "d = 2 ^ nat (- snd x)"
  have dpos: "0 < d" by (simp add: d_def)
  from False have "dval x = real (fst x) / real d"
    by (simp add: dval_def power_int_def d_def field_simps)
  then have "dval x + 1 / 2 = real (2 * fst x + d) / real (2 * d)"
    using dpos by (simp add: field_simps)
  then have "\<lfloor>dval x + 1 / 2\<rfloor> = int ((2 * fst x + d) div (2 * d))"
    by (simp only: floor_divide_of_nat_eq)
  with False show ?thesis by (simp add: Math_round_def d_def)
qed

lemma first_shift_above:
  assumes a: "0 < a" and b: "0 < b"
  shows "2 ^ 52 * real b
           < real a * 2 powi (int (bit_length b) + 53 - int (bit_length a))"
proof -
  have la: "(2::real) ^ (bit_length a - 1) \<le> real a"
    using bit_length_lower [OF a] by (simp flip: of_nat_power)
  have ub: "real b < 2 ^ bit_length b"
    using bit_length_upper [of b] by (simp flip: of_nat_power)
  have pa: "0 < bit_length a" using a by (rule bit_length_pos)
  have "int (bit_length b) + 53 - int (bit_length a)
          = int (bit_length b) + 52 - int (bit_length a - 1)"
    using pa by simp
  then have "(2::real) powi (int (bit_length b) + 53 - int (bit_length a))
          = 2 powi (int (bit_length b) + 52) / 2 powi (int (bit_length a - 1))"
    by (simp only: power_int_diff [of "2::real", OF disjI1] numeral_neq_zero not_False_eq_True)
  also have "\<dots> = 2 ^ 52 * 2 ^ bit_length b / 2 ^ (bit_length a - 1)"
    using powi_split2 [of 52 "bit_length b"] by (simp add: add.commute)
  finally have k0: "(2::real) powi (int (bit_length b) + 53 - int (bit_length a))
          = 2 ^ 52 * 2 ^ bit_length b / 2 ^ (bit_length a - 1)" .
  have "2 ^ 52 * real b < 2 ^ 52 * 2 ^ bit_length b"
    using ub by simp
  also have "\<dots> = 2 ^ (bit_length a - 1) * (2 ^ 52 * 2 ^ bit_length b / 2 ^ (bit_length a - 1))"
    by simp
  also have "\<dots> \<le> real a * (2 ^ 52 * 2 ^ bit_length b / 2 ^ (bit_length a - 1))"
    using la by (intro mult_right_mono) simp_all
  finally show ?thesis by (simp only: k0)
qed

lemma half_bound: "(c::real) = d / 2 \<Longrightarrow> q = 2 * p \<Longrightarrow> q \<le> d \<Longrightarrow> p \<le> c"
  by linarith

lemma div_shift_norm:
  assumes a: "0 < fst x" and b: "0 < fst y"
  shows "2 ^ 52 \<le> real (fst x) * 2 powi (div_shift x y) / real (fst y)"
proof -
  define k0 where "k0 = int (bit_length (fst y)) + 53 - int (bit_length (fst x))"
  have above: "2 ^ 52 * real (fst y) < real (fst x) * 2 powi k0"
    unfolding k0_def using a b by (rule first_shift_above)
  show ?thesis
  proof (cases "shifted_num (fst x) k0 < shifted_den (fst y) k0 * 2 ^ 53")
    case True
    then have "div_shift x y = k0" by (simp add: div_shift_def k0_def Let_def)
    with above b show ?thesis by (simp add: field_simps)
  next
    case False
    then have k: "div_shift x y = k0 - 1" by (simp add: div_shift_def k0_def Let_def)
    from False have "real (shifted_den (fst y) k0 * 2 ^ 53) \<le> real (shifted_num (fst x) k0)"
      by (simp only: of_nat_le_iff not_less)
    then have "2 ^ 53 \<le> real (shifted_num (fst x) k0) / real (shifted_den (fst y) k0)"
      using shifted_den_pos [OF b, of k0] by (simp add: field_simps)
    then have big: "2 ^ 53 \<le> real (fst x) * 2 powi k0 / real (fst y)"
      by (simp only: shifted_quot [OF b])
    have "(2::real) powi (k0 - 1) = 2 powi k0 / 2"
      by (simp add: power_int_diff)
    then have "real (fst x) * 2 powi (k0 - 1) / real (fst y)
                 = (real (fst x) * 2 powi k0 / real (fst y)) / 2"
      by (simp only: times_divide_eq_right divide_divide_eq_left mult.commute [of "real (fst y)" 2]
                     divide_divide_eq_left' )
    moreover have "(2::real) ^ 53 = 2 * 2 ^ 52" by simp
    ultimately show ?thesis using big unfolding k by (rule half_bound)
  qed
qed

lemma div_double_zero: "0 < fst y \<Longrightarrow> fst x = 0 \<Longrightarrow> dval (div_double x y) = 0"
  using shifted_den_pos [of "fst y" "div_shift x y"]
  by (simp add: div_double_def dval_def shifted_num_def rne_def Let_def)

lemma div_double_le_one:
  assumes b: "0 < fst y" and le: "dval x \<le> dval y"
  shows "dval (div_double x y) \<le> 1"
proof (cases "fst x = 0")
  case True
  with b show ?thesis by (simp add: div_double_zero)
next
  case False
  then have a: "0 < fst x" by simp
  define k where "k = div_shift x y"
  define E where "E = k + snd y - snd x"
  define sn where "sn = shifted_num (fst x) k"
  define sd where "sd = shifted_den (fst y) k"
  have sd: "0 < sd" unfolding sd_def using b by (rule shifted_den_pos)
  have quot: "real sn / real sd = real (fst x) * 2 powi k / real (fst y)"
    unfolding sn_def sd_def using b by (rule shifted_quot)
  have norm: "2 ^ 52 \<le> real sn / real sd"
    unfolding quot k_def using a b by (rule div_shift_norm)
  from le have "real (fst x) * 2 powi (snd x) \<le> real (fst y) * 2 powi (snd y)"
    by (simp add: dval_def)
  then have "real (fst x) * 2 powi (snd x) * (2 powi k / 2 powi (snd x))
          \<le> real (fst y) * 2 powi (snd y) * (2 powi k / 2 powi (snd x))"
    by (intro mult_right_mono) simp_all
  then have "real (fst x) * (2 powi (snd x) * (2 powi k / 2 powi (snd x)))
          \<le> real (fst y) * (2 powi (snd y) * (2 powi k / 2 powi (snd x)))"
    by (simp only: mult.assoc)
  moreover have "(2::real) powi (snd x) * (2 powi k / 2 powi (snd x)) = 2 powi k"
    by simp
  moreover have "(2::real) powi (snd y) * (2 powi k / 2 powi (snd x)) = 2 powi E"
    by (simp add: E_def power_int_diff two_powi_add)
  ultimately have "real (fst x) * 2 powi k \<le> real (fst y) * 2 powi E"
    by (simp only:)
  then have upper: "real sn / real sd \<le> 2 powi E"
    unfolding quot using b by (simp add: field_simps)
  from norm upper have "(2::real) powi 52 \<le> 2 powi E" by simp
  then have E52: "52 \<le> E" by (simp only: two_powi_le)
  define j where "j = nat E"
  have Ej: "E = int j" using E52 by (simp add: j_def)
  from upper have "real sn / real sd \<le> 2 ^ j" by (simp add: Ej)
  then have "real sn \<le> real (2 ^ j * sd)" using sd by (simp add: field_simps)
  then have "sn \<le> 2 ^ j * sd" by (simp only: of_nat_le_iff)
  then have "rne sn sd \<le> 2 ^ j" using sd by (intro rne_le)
  then have "real (rne sn sd) \<le> 2 powi E" by (simp add: Ej flip: of_nat_power)
  then have "real (rne sn sd) * 2 powi (- E) \<le> 2 powi E * 2 powi (- E)"
    by (intro mult_right_mono) simp_all
  also have "(2::real) powi E * 2 powi (- E) = 1"
    by (simp add: power_int_minus)
  finally have "real (rne sn sd) * 2 powi (- E) \<le> 1" .
  moreover have "snd x - snd y - k = - E" by (simp add: E_def)
  ultimately show ?thesis
    by (simp add: div_double_def dval_def sn_def sd_def k_def)
qed

lemma to_double_100: "to_double 100 = (100, 0)"
  by (simp add: to_double_def round53_def bit_length_numeral bit_length_0 bit_length_1)

lemma mul_100_le:
  assumes "dval q \<le> 1"
  shows "dval (mul_double q (to_double 100)) \<le> 100"
proof -
  from assms have "real (fst q) * 2 powi (snd q) * 100 \<le> 1 * 100"
    unfolding dval_def by (intro mult_right_mono) simp_all
  then have "real (fst q * 100) * 2 powi (snd q + 0) \<le> real 100 * 2 powi 0"
    by (simp add: mult_ac)
  then have "dval (round53 (fst q * 100) (snd q + 0)) \<le> real 100 * 2 powi 0"
    by (rule round53_le) simp
  then show ?thesis by (simp add: mul_double_def to_double_100)
qed

lemma dval_nonneg: "0 \<le> dval x"
  by (simp add: dval_def)

lemma percent_bounds:
  assumes "0 < t" and "l \<le> t"
  shows "0 \<le> Math_round (mul_double (div_double (to_double l) (to_double t)) (to_double 100)) \<and> Math_round (mul_double (div_double (to_double l) (to_double t)) (to_double 100)) \<le> 100"
proof -
  have "dval (div_double (to_double l) (to_double t)) \<le> 1"
    using to_double_pos [OF assms(1)] to_double_mono [OF assms(2)] by (rule div_double_le_one)
  then have "dval (mul_double (div_double (to_double l) (to_double t)) (to_double 100)) \<le> 100"
    by (rule mul_100_le)
  moreover have "0 \<le> dval (mul_double (div_double (to_double l) (to_double t)) (to_double 100))"
    by (rule dval_nonneg)
  ultimately show ?thesis
    unfolding Math_round_floor by (simp add: floor_le_iff le_floor_iff)
qed

lemma rel_bounds:
  fixes x y u :: real
  assumes "\<bar>y - x\<bar> \<le> x * u"
  shows "y \<le> x * (1 + u)" and "x * (1 - u) \<le> y"
  using assms by (simp_all add: abs_le_iff algebra_simps)

lemma abs_scale:
  fixes p q w u :: real
  assumes w: "0 \<le> w" and near: "\<bar>p - q\<bar> \<le> q * u"
  shows "\<bar>p * w - q * w\<bar> \<le> q * w * u"
proof -
  have "\<bar>p * w - q * w\<bar> = \<bar>(p - q) * w\<bar>" by (simp only: left_diff_distrib)
  also have "\<dots> = \<bar>p - q\<bar> * w" using w by (simp only: abs_mult abs_of_nonneg)
  also have "\<dots> \<le> q * u * w" using near w by (rule mult_right_mono)
  also have "\<dots> = q * w * u" by (simp only: mult.assoc mult.commute [of u w])
  finally show ?thesis .
qed

lemma round53_rel:
  "\<bar>dval (round53 m e) - real m * 2 powi e\<bar> \<le> real m * 2 powi e * ulp_half"
proof (cases "bit_length m \<le> 53")
  case True
  then show ?thesis by (simp add: round53_exact dval_def ulp_half_def)
next
  case False
  define s where "s = bit_length m - 53"
  define d :: nat where "d = 2 ^ s"
  define w :: real where "w = real d * 2 powi e"
  have dpos: "0 < d" by (simp add: d_def)
  have wpos: "0 \<le> w" by (simp add: w_def)
  have low: "2 ^ 52 * d \<le> m" using wide_lower [OF False] by (simp add: s_def d_def)
  then have "real (2 ^ 52 * d) \<le> real m" by (simp only: of_nat_le_iff)
  then have q: "2 ^ 52 \<le> real m / real d" using dpos by (simp add: field_simps)
  have "\<bar>real (rne m d) - real m / real d\<bar> \<le> 1 / 2" using dpos by (rule rne_near)
  also have "1 / 2 \<le> real m / real d * ulp_half"
    using q by (simp add: ulp_half_def)
  finally have near: "\<bar>real (rne m d) - real m / real d\<bar> \<le> real m / real d * ulp_half" .
  have sc: "(2::real) powi (e + int s) = w"
    by (simp add: powi_split2 d_def w_def)
  have qw: "real m / real d * w = real m * 2 powi e"
    using dpos by (simp add: w_def)
  have "\<bar>real (rne m d) * w - real m / real d * w\<bar> \<le> real m / real d * w * ulp_half"
    using wpos near by (rule abs_scale)
  then have "\<bar>real (rne m d) * w - real m * 2 powi e\<bar> \<le> real m * 2 powi e * ulp_half"
    by (simp only: qw)
  moreover have "dval (round53 m e) = real (rne m d) * w"
    using False by (simp add: round53_wide dval_def sc [symmetric] s_def d_def)
  ultimately show ?thesis by (simp only:)
qed

lemma div_double_rel:
  assumes b: "0 < fst y"
  shows "\<bar>dval (div_double x y) - dval x / dval y\<bar> \<le> dval x / dval y * ulp_half"
proof (cases "fst x = 0")
  case True
  with b show ?thesis by (simp add: div_double_zero) (simp add: dval_def)
next
  case False
  then have a: "0 < fst x" by simp
  define k where "k = div_shift x y"
  define sn where "sn = shifted_num (fst x) k"
  define sd where "sd = shifted_den (fst y) k"
  define w :: real where "w = 2 powi (snd x - snd y - k)"
  have wpos: "0 \<le> w" by (simp add: w_def)
  have sd: "0 < sd" unfolding sd_def using b by (rule shifted_den_pos)
  have quot: "real sn / real sd = real (fst x) * 2 powi k / real (fst y)"
    unfolding sn_def sd_def using b by (rule shifted_quot)
  have norm: "2 ^ 52 \<le> real sn / real sd"
    unfolding quot k_def using a b by (rule div_shift_norm)
  have "\<bar>real (rne sn sd) - real sn / real sd\<bar> \<le> 1 / 2" using sd by (rule rne_near)
  also have "1 / 2 \<le> real sn / real sd * ulp_half"
    using norm by (simp add: ulp_half_def)
  finally have near: "\<bar>real (rne sn sd) - real sn / real sd\<bar> \<le> real sn / real sd * ulp_half" .
  have wsplit: "w = 2 powi (snd x) / 2 powi (snd y) / 2 powi k"
    by (simp add: w_def power_int_diff)
  have exact: "real sn / real sd * w = dval x / dval y"
    unfolding quot wsplit dval_def using b by simp
  have val: "dval (div_double x y) = real (rne sn sd) * w"
    by (simp add: div_double_def dval_def sn_def sd_def k_def w_def)
  have "\<bar>real (rne sn sd) * w - real sn / real sd * w\<bar> \<le> real sn / real sd * w * ulp_half"
    using wpos near by (rule abs_scale)
  then show ?thesis by (simp only: exact val)
qed

lemma ulp_cube_upper: "(1 + ulp_half) * (1 + ulp_half) * (1 + ulp_half) \<le> (1 + 5 * ulp_half) * (1 - ulp_half)"
  by (simp add: ulp_half_def)

lemma ulp_cube_lower: "(1 - 5 * ulp_half) * (1 + ulp_half) \<le> (1 - ulp_half) * (1 - ulp_half) * (1 - ulp_half)"
  by (simp add: ulp_half_def)

lemma ulp_half_small: "0 < 1 - ulp_half" "0 \<le> ulp_half" "0 < 1 + ulp_half"
  by (simp_all add: ulp_half_def)

lemma rel_chain:
  fixes l t L T Q R :: real
  assumes l: "0 \<le> l" and t: "0 < t" and lt: "l \<le> t"
    and eL: "\<bar>L - l\<bar> \<le> l * ulp_half" and eT: "\<bar>T - t\<bar> \<le> t * ulp_half"
    and eQ: "\<bar>Q - L / T\<bar> \<le> L / T * ulp_half"
    and eR: "\<bar>R - Q * 100\<bar> \<le> Q * 100 * ulp_half"
  shows "\<bar>R - l / t * 100\<bar> \<le> 500 * ulp_half"
proof -
  define a where "a = 1 + ulp_half"
  define b where "b = 1 - ulp_half"
  define r where "r = l / t"
  have b: "0 < b" and a: "0 < a" using ulp_half_small by (simp_all add: a_def b_def)
  have r0: "0 \<le> r" and r1: "r \<le> 1" using l t lt by (simp_all add: r_def)
  have La: "L \<le> l * a" and Lb: "l * b \<le> L"
    using rel_bounds [OF eL] by (simp_all add: a_def b_def)
  have Ta: "T \<le> t * a" and Tb: "t * b \<le> T"
    using rel_bounds [OF eT] by (simp_all add: a_def b_def)
  have lb0: "0 \<le> l * b" using l b by simp
  have tb0: "0 < t * b" using t b by simp
  have L0: "0 \<le> L" using lb0 Lb by linarith
  have T0: "0 < T" using tb0 Tb by linarith
  have la0: "0 \<le> l * a" using l a by simp
  have Dup: "L / T \<le> l * a / (t * b)" using la0 La tb0 Tb by (rule frac_le)
  have Dlo: "l * b / (t * a) \<le> L / T" using L0 Lb T0 Ta by (rule frac_le)
  have D0: "0 \<le> L / T" using L0 T0 by simp
  have Qa: "Q \<le> L / T * a" and Qb: "L / T * b \<le> Q"
    using rel_bounds [OF eQ] by (simp_all add: a_def b_def)
  have Q0: "0 \<le> Q"
  proof -
    from b have "0 \<le> b" by simp
    with D0 have "0 \<le> L / T * b" by (rule mult_nonneg_nonneg)
    with Qb show ?thesis by linarith
  qed
  have Ra: "R \<le> Q * 100 * a" and Rb: "Q * 100 * b \<le> R"
    using rel_bounds [OF eR] by (simp_all add: a_def b_def)
  have up1: "l * a / (t * b) = r * (a / b)" and lo1: "l * b / (t * a) = r * (b / a)"
    by (simp_all add: r_def)
  \<comment> \<open>upper bound\<close>
  have "Q * 100 * a \<le> (L / T * a) * 100 * a"
    using Qa a by (intro mult_right_mono) simp_all
  also have "\<dots> \<le> (r * (a / b) * a) * 100 * a"
    using Dup a unfolding up1 by (intro mult_right_mono) simp_all
  also have "\<dots> = r * 100 * (a * a * a / b)" by simp
  also have "\<dots> \<le> r * 100 * (1 + 5 * ulp_half)"
  proof -
    have "a * a * a \<le> (1 + 5 * ulp_half) * b"
      using ulp_cube_upper by (simp only: a_def b_def)
    then have "a * a * a / b \<le> 1 + 5 * ulp_half"
      using b by (simp add: pos_divide_le_eq)
    then show ?thesis using r0 by (intro mult_left_mono) simp_all
  qed
  also have "\<dots> = r * 100 + r * (500 * ulp_half)" by (simp add: algebra_simps)
  also have "\<dots> \<le> r * 100 + 1 * (500 * ulp_half)"
    using r1 ulp_half_small(2) by (intro add_left_mono mult_right_mono) simp_all
  finally have upper: "R \<le> r * 100 + 500 * ulp_half" using Ra by simp
  \<comment> \<open>lower bound\<close>
  have "r * 100 - 1 * (500 * ulp_half) \<le> r * 100 - r * (500 * ulp_half)"
    using r1 ulp_half_small(2) by (intro diff_left_mono mult_right_mono) simp_all
  also have "\<dots> = r * 100 * (1 - 5 * ulp_half)" by (simp add: algebra_simps)
  also have "\<dots> \<le> r * 100 * (b * b * b / a)"
  proof -
    have "(1 - 5 * ulp_half) * a \<le> b * b * b"
      using ulp_cube_lower by (simp only: a_def b_def)
    then have "1 - 5 * ulp_half \<le> b * b * b / a"
      using a by (simp add: pos_le_divide_eq)
    then show ?thesis using r0 by (intro mult_left_mono) simp_all
  qed
  also have "\<dots> = (r * (b / a) * b) * 100 * b" by simp
  also have "\<dots> \<le> (L / T * b) * 100 * b"
    using Dlo b unfolding lo1 by (intro mult_right_mono) simp_all
  also have "\<dots> \<le> Q * 100 * b"
    using Qb b by (intro mult_right_mono) simp_all
  finally have lower: "r * 100 - 500 * ulp_half \<le> R" using Rb by simp
  from upper lower show ?thesis by (simp add: r_def abs_le_iff)
qed

lemma to_double_rel: "\<bar>dval (to_double n) - real n\<bar> \<le> real n * ulp_half"
  using round53_rel [of n 0] by (simp add: to_double_def)

lemma mul_100_rel:
  "\<bar>dval (mul_double q (to_double 100)) - dval q * 100\<bar> \<le> dval q * 100 * ulp_half"
proof -
  have "real (fst q * 100) * 2 powi (snd q + 0) = dval q * 100"
    by (simp add: dval_def)
  with round53_rel [of "fst q * 100" "snd q + 0"] show ?thesis
    by (simp only: mul_double_def to_double_100 fst_conv snd_conv)
qed

lemma Math_round_near_dval: "\<bar>real_of_int (Math_round x) - dval x\<bar> \<le> 1 / 2"
  unfolding Math_round_floor by linarith

lemma percent_near:
  assumes t: "0 < t" and lt: "l \<le> t"
  shows "\<bar>real_of_int (Math_round (mul_double (div_double (to_double l) (to_double t)) (to_double 100))) - real l / real t * 100\<bar> \<le> 1 / 2 + 500 * ulp_half"
proof -
  define R where "R = dval (mul_double (div_double (to_double l) (to_double t)) (to_double 100))"
  have "\<bar>R - real l / real t * 100\<bar> \<le> 500 * ulp_half"
    unfolding R_def
  proof (rule rel_chain)
    show "0 \<le> real l" by simp
    show "0 < real t" using t by simp
    show "real l \<le> real t" using lt by simp
    show "\<bar>dval (to_double l) - real l\<bar> \<le> real l * ulp_half" by (rule to_double_rel)
    show "\<bar>dval (to_double t) - real t\<bar> \<le> real t * ulp_half" by (rule to_double_rel)
    show "\<bar>dval (div_double (to_double l) (to_double t)) - dval (to_double l) / dval (to_double t)\<bar>
            \<le> dval (to_double l) / dval (to_double t) * ulp_half"
      using to_double_pos [OF t] by (rule div_double_rel)
    show "\<bar>dval (mul_double (div_double (to_double l) (to_double t)) (to_double 100))
             - dval (div_double (to_double l) (to_double t)) * 100\<bar>
            \<le> dval (div_double (to_double l) (to_double t)) * 100 * ulp_half"
      by (rule mul_100_rel)
  qed
  moreover have "\<bar>real_of_int (Math_round (mul_double (div_double (to_double l) (to_double t)) (to_double 100))) - R\<bar> \<le> 1 / 2"
    unfolding R_def by (rule Math_round_near_dval)
  ultimately show ?thesis by linarith
qed

lemma percent_floor_or_ceiling:
  assumes t: "0 < t" and lt: "l \<le> t"
  shows "\<lfloor>real l / real t * 100\<rfloor> \<le> Math_round (mul_double (div_double (to_double l) (to_double t)) (to_double 100)) \<and> Math_round (mul_double (div_double (to_double l) (to_double t)) (to_double 100)) \<le> \<lceil>real l / real t * 100\<rceil>"
proof -
  have small: "1 / 2 + 500 * ulp_half < 1" by (simp add: ulp_half_def)
  from percent_near [OF t lt] small
  have "\<bar>real_of_int (Math_round (mul_double (div_double (to_double l) (to_double t)) (to_double 100))) - real l / real t * 100\<bar> < 1" by linarith
  then show ?thesis by linarith
qed

lemma percentage_23_of_40:
  "Math_round (mul_double (div_double (to_double 23) (to_double 40)) (to_double 100)) = 57"
  by (simp add: double_eval)

section \<open>Properties of the service functions\<close>

lemma xhr_dispatch_30000_cases:
  "xhr_dispatch 30000 tr =
     (case tr of
        Answers t st \<Rightarrow> if 30000 \<le> t then Some TimeoutEvent else Some (LoadEvent st)
      | Breaks t \<Rightarrow> if 30000 \<le> t then Some TimeoutEvent else Some ErrorEvent
      | Silent \<Rightarrow> Some TimeoutEvent)"
  by (simp add: xhr_dispatch_def split: transport.splits)


lemma presigned_catch_not_validation:
  "presigned_catch e \<noteq> type_not_allowed_message \<and> presigned_catch e \<noteq> size_limit_message"
  by (cases e) (simp_all add: presigned_catch_def type_not_allowed_message_def
                  size_limit_message_def cors_message_def)

lemma missing_presignedUrl_not_cors:
  "presigned_catch (Err missing_presignedUrl_message)
     = ''Failed to request presigned URL: Invalid response from server: missing presignedUrl''"
  by (simp add: presigned_catch_def missing_presignedUrl_message_def)

lemma presigned_try_missing:
  assumes "ok r" and "resp_json r = Inr data" and "data \<noteq> JNull"
    and "\<not> truthy (js_prop data ''presignedUrl'')"
  shows "presigned_try (FetchResolves r) now1 now2 fileName fileType
           = Inl (Err missing_presignedUrl_message)"
  using assms by (cases data) (simp_all add: presigned_try_def)

lemma presigned_try_null:
  assumes "ok r" and "resp_json r = Inr JNull"
  shows "presigned_try (FetchResolves r) now1 now2 fileName fileType
           = Inl (null_property_error ''presignedUrl'')"
  using assms by (simp add: presigned_try_def)

lemma presigned_try_unparsable:
  assumes "ok r" and "resp_json r = Inl e"
  shows "presigned_try (FetchResolves r) now1 now2 fileName fileType = Inl e"
  using assms by (simp add: presigned_try_def)

lemma presigned_try_credentials:
  assumes "ok r"
  shows "(\<exists>c. presigned_try (FetchResolves r) now1 now2 fileName fileType = Inr c)
           \<longleftrightarrow> (\<exists>data. resp_json r = Inr data \<and> data \<noteq> JNull \<and>
                        truthy (js_prop data ''presignedUrl''))"
proof (cases "resp_json r")
  case (Inl e)
  with assms show ?thesis by (simp add: presigned_try_def)
next
  case (Inr data)
  with assms show ?thesis by (cases data) (simp_all add: presigned_try_def)
qed

lemma validateFile_parcel: "validateFile default_props parcel_kml = None"
  by (simp add: validateFile_def default_props_def parcel_kml_def fileExtension_def pop_def
                toLowerCase_def lower_char_def upper_letters_def lower_letters_def)

lemma run_uploading:
  "run default_props initial [FileChosen parcel_kml, UploadClicked]
     = \<lparr> uploadStatus = \<lparr> status = Uploading, progress = no_progress, error = None,
                           fileKey = None \<rparr>,
         selectedFile = Some parcel_kml \<rparr>"
  by (simp add: run_def initial_def handleFileSelect_def validateFile_parcel
                upload_button_shown_def handleUpload_start_def)

lemma is_digit_digit_char: "d < 10 \<Longrightarrow> is_digit (digit_char d)"
  unfolding is_digit_def digit_char_def by (rule nth_mem) simp

lemma show_nat_nonempty: "show_nat n \<noteq> []"
  by (subst show_nat.simps) simp

lemma show_nat_digits: "list_all is_digit (show_nat n)"
proof (induction n rule: show_nat.induct)
  case (1 n)
  show ?case
  proof (cases "n < 10")
    case True
    then show ?thesis
      by (subst show_nat.simps) (simp add: is_digit_digit_char)
  next
    case False
    with "1" have "list_all is_digit (show_nat (n div 10))" by simp
    moreover have "is_digit (digit_char (n mod 10))"
      by (rule is_digit_digit_char) simp
    ultimately show ?thesis
      using False by (subst show_nat.simps) simp
  qed
qed

lemma hyphen_not_digit: "\<not> is_digit (CHR ''-'')"
  by (simp add: is_digit_def)

lemma takeWhile_digits_hyphen:
  "list_all is_digit ds \<Longrightarrow> takeWhile is_digit (ds @ CHR ''-'' # r) = ds"
  by (induction ds) (simp_all add: hyphen_not_digit)

lemma dropWhile_digits_hyphen:
  "list_all is_digit ds \<Longrightarrow> dropWhile is_digit (ds @ CHR ''-'' # r) = CHR ''-'' # r"
  by (induction ds) (simp_all add: hyphen_not_digit)

lemma matches_analysis_id:
  "matches_analysis_pattern (''analysis-'' @ show_nat now @ ''-'' @ r)
     \<longleftrightarrow> length r = 9 \<and> list_all is_base36 r"
  by (simp add: matches_analysis_pattern_def takeWhile_digits_hyphen dropWhile_digits_hyphen
                show_nat_digits show_nat_nonempty)

lemma list_all_take: "list_all P xs \<Longrightarrow> list_all P (take n xs)"
  by (induction xs arbitrary: n) (auto simp: take_Cons split: nat.splits)

section \<open>Claims\<close>

text \<open>
  C1 (as the code has it).  The status moves to an earlier stage of Idle, Uploading,
  Success or Error only through \<open>clearFile\<close> or through \<open>handleFileSelect\<close> of a
  file that passes validation, and both leave it Idle.  No operation takes Success or
  Error to Uploading; Uploading is entered only from Idle, by the upload button;
  \<open>clearFile\<close> always yields Idle, and a progress update leaves the status as it is.
\<close>

theorem status_backward_only_by_clear_or_select:
  "(stage (state_of (step P s e)) < stage (state_of s) \<longrightarrow>
      (e = ClearClicked \<or> (\<exists>f. e = FileChosen f \<and> validateFile P f = None)) \<and>
      state_of (step P s e) = Idle) \<and>
   (state_of s = Success \<or> state_of s = Error \<longrightarrow> state_of (step P s e) \<noteq> Uploading) \<and>
   (state_of (step P s e) = Uploading \<and> state_of s \<noteq> Uploading \<longrightarrow>
      e = UploadClicked \<and> state_of s = Idle) \<and>
   state_of (step P s ClearClicked) = Idle \<and>
   state_of (step P s (ProgressReported p)) = state_of s"
proof -
  have clear: "state_of (step P s ClearClicked) = Idle"
    by (simp add: state_of_def clearFile_def)
  have prog: "state_of (step P s (ProgressReported p)) = state_of s"
    by (simp add: state_of_def handleUpload_progress_def)
  have lower: "stage (state_of (step P s e)) < stage (state_of s) \<longrightarrow>
      (e = ClearClicked \<or> (\<exists>f. e = FileChosen f \<and> validateFile P f = None)) \<and>
      state_of (step P s e) = Idle"
    by (cases e; cases "status (uploadStatus s)")
       (auto simp add: state_of_def handleFileSelect_def handleUpload_start_def
          handleUpload_progress_def handleUpload_success_def handleUpload_catch_def
          clearFile_def upload_button_shown_def split: option.splits)
  have noup: "state_of s = Success \<or> state_of s = Error \<longrightarrow> state_of (step P s e) \<noteq> Uploading"
    by (cases e)
       (auto simp add: state_of_def handleFileSelect_def handleUpload_start_def
          handleUpload_progress_def handleUpload_success_def handleUpload_catch_def
          clearFile_def upload_button_shown_def split: option.splits)
  have enter: "state_of (step P s e) = Uploading \<and> state_of s \<noteq> Uploading \<longrightarrow>
      e = UploadClicked \<and> state_of s = Idle"
    by (cases e)
       (auto simp add: state_of_def handleFileSelect_def handleUpload_start_def
          handleUpload_progress_def handleUpload_success_def handleUpload_catch_def
          clearFile_def upload_button_shown_def split: option.splits)
  from clear prog lower noup enter show ?thesis by blast
qed

theorem status_backward_only_by_clear_or_select_witness:
  "stage (state_of (step default_props
       (run default_props initial [FileChosen parcel_kml, UploadClicked]) (FileChosen parcel_kml)))
     < stage (state_of (run default_props initial [FileChosen parcel_kml, UploadClicked])) \<and>
   validateFile default_props parcel_kml = None \<and>
   state_of (step default_props
       (run default_props initial [FileChosen parcel_kml, UploadClicked]) (FileChosen parcel_kml))
     = Idle \<and>
   state_of (step default_props
       (run default_props initial [FileChosen parcel_kml, UploadClicked, StagesCompleted ''parcel.kml''])
       UploadClicked) = Success \<and>
   state_of (step default_props
       (run default_props initial [FileChosen parcel_kml]) UploadClicked) = Uploading"
proof -
  let ?u = "run default_props initial [FileChosen parcel_kml, UploadClicked]"
  have lt: "stage (state_of (step default_props ?u (FileChosen parcel_kml))) < stage (state_of ?u)"
    by (simp add: run_uploading handleFileSelect_def validateFile_parcel state_of_def)
  from lt status_backward_only_by_clear_or_select
         [where P = default_props and s = ?u and e = "FileChosen parcel_kml"]
  have a: "validateFile default_props parcel_kml = None \<and>
           state_of (step default_props ?u (FileChosen parcel_kml)) = Idle"
    by auto
  have b: "state_of (step default_props
       (run default_props initial [FileChosen parcel_kml, UploadClicked, StagesCompleted ''parcel.kml''])
       UploadClicked) = Success"
    by (simp add: run_def initial_def handleFileSelect_def validateFile_parcel
                upload_button_shown_def handleUpload_start_def state_of_def
                handleUpload_success_def)
  have c: "state_of (step default_props
       (run default_props initial [FileChosen parcel_kml]) UploadClicked) = Uploading"
    by (simp add: run_def initial_def handleFileSelect_def validateFile_parcel
                upload_button_shown_def handleUpload_start_def state_of_def)
  from lt a b c show ?thesis by blast
qed

text \<open>
  C1, the stated invariant refuted: after a file is selected and the upload started the
  status is Uploading, and a second valid file dropped on the component then sets it
  back to Idle, with no call of \<open>clearFile\<close>.
\<close>

theorem status_uploading_back_to_idle_counterexample:
  "state_of (run default_props initial [FileChosen parcel_kml, UploadClicked]) = Uploading \<and>
   state_of (run default_props initial [FileChosen parcel_kml, UploadClicked, FileChosen parcel_kml])
     = Idle"
  by (simp add: run_def initial_def handleFileSelect_def validateFile_parcel
                upload_button_shown_def handleUpload_start_def state_of_def)




text \<open>
  C3.  The transfer always settles.  It is rejected with the timeout error when nothing
  has come back from the store within the 30000 ms set as \<open>xhr.timeout\<close>, with the
  network error when the transport fails, and with an error that carries the status
  code when the store answers with a status outside 200 to 299; it resolves exactly
  when the store answers in time with a status from 200 to 299.
\<close>

theorem uploadFileToS3_outcomes:
  "snd (uploadFileToS3 f url flds cb now evs Silent) = Some (Inl ''Upload timed out'') \<and>
   (30000 \<le> t \<longrightarrow>
      snd (uploadFileToS3 f url flds cb now evs (Answers t st)) = Some (Inl ''Upload timed out'')) \<and>
   (t < 30000 \<longrightarrow>
      snd (uploadFileToS3 f url flds cb now evs (Breaks t))
        = Some (Inl ''Upload failed due to network error'')) \<and>
   (t < 30000 \<and> (st < 200 \<or> 299 < st) \<longrightarrow>
      snd (uploadFileToS3 f url flds cb now evs (Answers t st))
        = Some (Inl (''Upload failed with status: '' @ show_nat st))) \<and>
   ((\<exists>k. snd (uploadFileToS3 f url flds cb now evs tr) = Some (Inr k)) \<longleftrightarrow>
    (\<exists>t' st'. tr = Answers t' st' \<and> t' < 30000 \<and> 200 \<le> st' \<and> st' \<le> 299))"
proof -
  have a: "snd (uploadFileToS3 f url flds cb now evs Silent) = Some (Inl ''Upload timed out'')"
    by (simp add: uploadFileToS3_def xhr_dispatch_30000_cases xhr_settle_def)
  have b: "30000 \<le> t \<longrightarrow>
      snd (uploadFileToS3 f url flds cb now evs (Answers t st)) = Some (Inl ''Upload timed out'')"
    by (simp add: uploadFileToS3_def xhr_dispatch_30000_cases xhr_settle_def)
  have c: "t < 30000 \<longrightarrow>
      snd (uploadFileToS3 f url flds cb now evs (Breaks t))
        = Some (Inl ''Upload failed due to network error'')"
    by (simp add: uploadFileToS3_def xhr_dispatch_30000_cases xhr_settle_def)
  have d: "t < 30000 \<and> (st < 200 \<or> 299 < st) \<longrightarrow>
      snd (uploadFileToS3 f url flds cb now evs (Answers t st))
        = Some (Inl (''Upload failed with status: '' @ show_nat st))"
    by (auto simp add: uploadFileToS3_def xhr_dispatch_30000_cases xhr_settle_def)
  have e: "(\<exists>k. snd (uploadFileToS3 f url flds cb now evs tr) = Some (Inr k)) \<longleftrightarrow>
    (\<exists>t' st'. tr = Answers t' st' \<and> t' < 30000 \<and> 200 \<le> st' \<and> st' \<le> 299)"
    by (cases tr) (auto simp add: uploadFileToS3_def xhr_dispatch_30000_cases xhr_settle_def)
  from a b c d e show ?thesis by blast
qed

theorem uploadFileToS3_outcomes_witness:
  "snd (uploadFileToS3 parcel_kml ''https://store/bucket/parcel.kml?sig=1'' (JObj []) True 0 []
          (Answers 45000 200)) = Some (Inl ''Upload timed out'') \<and>
   snd (uploadFileToS3 parcel_kml ''https://store/bucket/parcel.kml?sig=1'' (JObj []) True 0 []
          (Breaks 1200)) = Some (Inl ''Upload failed due to network error'') \<and>
   snd (uploadFileToS3 parcel_kml ''https://store/bucket/parcel.kml?sig=1'' (JObj []) True 0 []
          (Answers 1200 403)) = Some (Inl ''Upload failed with status: 403'') \<and>
   (\<exists>k. snd (uploadFileToS3 parcel_kml ''https://store/bucket/parcel.kml?sig=1'' (JObj []) True 0 []
          (Answers 1200 200)) = Some (Inr k))"
  using uploadFileToS3_outcomes [where t = 45000 and st = 200 and tr = Silent and f = parcel_kml
          and url = "''https://store/bucket/parcel.kml?sig=1''" and flds = "JObj []"
          and cb = True and now = 0 and evs = "[]"]
        uploadFileToS3_outcomes [where t = 1200 and st = 403 and tr = "Answers 1200 200"
          and f = parcel_kml
          and url = "''https://store/bucket/parcel.kml?sig=1''" and flds = "JObj []"
          and cb = True and now = 0 and evs = "[]"]
  by (simp add: show_nat_eval)

text \<open>
  C4 (as the code has it).  For a progress event with a computable length,
  \<open>0 < total\<close> and \<open>loaded \<le> total\<close>, the callback receives \<open>loaded\<close>,
  \<open>total\<close> and the percentage \<open>Math.round((loaded / total) * 100)\<close>, computed in
  double arithmetic.  The reported percentage is the floor or the ceiling of the exact
  percentage, is no further from it than \<open>1 / 2 + 500 / 2 ^ 53\<close>, and lies between
  0 and 100.  It need not be the exact percentage rounded half up: for 23 of 40 bytes the
  exact percentage is 57.5, the double product is just below it, and 57 is reported.
\<close>

theorem progress_percentage_rounded:
  assumes "lengthComputable ev" and "0 < ev_total ev" and "ev_loaded ev \<le> ev_total ev"
  shows "\<exists>p. progress_listener True ev
              = Some \<lparr> loaded = ev_loaded ev, total = ev_total ev, percentage = Finite p \<rparr> \<and>
             p = Math_round (mul_double (div_double (to_double (ev_loaded ev))
                                                    (to_double (ev_total ev))) (to_double 100)) \<and>
             \<bar>real_of_int p - real (ev_loaded ev) / real (ev_total ev) * 100\<bar>
               \<le> 1 / 2 + 500 * ulp_half \<and>
             \<lfloor>real (ev_loaded ev) / real (ev_total ev) * 100\<rfloor> \<le> p \<and>
             p \<le> \<lceil>real (ev_loaded ev) / real (ev_total ev) * 100\<rceil> \<and>
             0 \<le> p \<and> p \<le> 100"
proof -
  let ?p = "Math_round (mul_double (div_double (to_double (ev_loaded ev))
                                               (to_double (ev_total ev))) (to_double 100))"
  from assms(2) have "percentage_of (ev_loaded ev) (ev_total ev) = Finite ?p"
    by (simp add: percentage_of_def)
  with assms(1) have "progress_listener True ev
      = Some \<lparr> loaded = ev_loaded ev, total = ev_total ev, percentage = Finite ?p \<rparr>"
    by (simp add: progress_listener_def)
  moreover note percent_near [OF assms(2,3)] percent_floor_or_ceiling [OF assms(2,3)]
    percent_bounds [OF assms(2,3)]
  ultimately show ?thesis by blast
qed

theorem progress_percentage_rounded_witness:
  "progress_listener True \<lparr> lengthComputable = True, ev_loaded = 23, ev_total = 40 \<rparr>
     = Some \<lparr> loaded = 23, total = 40, percentage = Finite 57 \<rparr>"
  using progress_percentage_rounded
          [of "\<lparr> lengthComputable = True, ev_loaded = 23, ev_total = 40 \<rparr>"]
  by (auto simp add: percentage_23_of_40)

text \<open>
  C4, the stated formula refuted: for 2 of 3 bytes the callback reports 67, while the
  floor of the exact percentage is 66.
\<close>

theorem progress_percentage_floor_counterexample:
  "progress_listener True \<lparr> lengthComputable = True, ev_loaded = 2, ev_total = 3 \<rparr>
     = Some \<lparr> loaded = 2, total = 3, percentage = Finite 67 \<rparr> \<and>
   \<lfloor>real 2 / real 3 * 100\<rfloor> = (66 :: int)"
  by (simp add: progress_listener_def percentage_of_def double_eval)

text \<open>
  C5.  On a successful transfer the file key is the text after the last slash of the
  transfer URL, cut before the first question mark; when that text is empty the key is
  \<open>input_kml_files/{timestamp}-{fileName}\<close>.  The upload relay route derives its
  \<open>fileKey\<close> by the same expression.
\<close>

theorem fileKey_from_transfer_url:
  "(t < 30000 \<and> 200 \<le> st \<and> st \<le> 299 \<longrightarrow>
      snd (uploadFileToS3 f url flds cb now evs (Answers t st))
        = Some (Inr (if spec_url_key url = []
                     then ''input_kml_files/'' @ show_nat now @ ''-'' @ file_name f
                     else spec_url_key url))) \<and>
   (url \<noteq> [] \<and> put url = FetchResolves r \<and> ok r \<longrightarrow>
      upload_proxy_POST (Inr (Some f, Some url)) put now
        = \<lparr> http_status = 200,
            http_body = JObj [(''success'', JBool True),
                              (''fileKey'', JStr (if spec_url_key url = []
                                 then ''input_kml_files/'' @ show_nat now @ ''-'' @ file_name f
                                 else spec_url_key url)),
                              (''message'', JStr ''File uploaded successfully'')],
            cors_headers = False \<rparr>)"
  by (simp add: uploadFileToS3_def xhr_dispatch_30000_cases xhr_settle_def upload_proxy_POST_def
                fileKey_of_url_spec)

theorem fileKey_from_transfer_url_witness:
  "snd (uploadFileToS3 parcel_kml ''https://store/bucket/input_kml_files/parcel.kml?sig=abc''
          (JObj []) True 1700000000000 [] (Answers 1200 200)) = Some (Inr ''parcel.kml'') \<and>
   snd (uploadFileToS3 parcel_kml ''https://store/bucket/?sig=abc''
          (JObj []) True 1700000000000 [] (Answers 1200 200))
     = Some (Inr ''input_kml_files/1700000000000-parcel.kml'') \<and>
   js_prop (http_body (upload_proxy_POST
       (Inr (Some parcel_kml, Some ''https://store/bucket/input_kml_files/parcel.kml?sig=abc''))
       (\<lambda>u. FetchResolves \<lparr> resp_status = 200, resp_statusText = ''OK'', resp_json = Inr JNull \<rparr>)
       1700000000000)) ''fileKey'' = Some (JStr ''parcel.kml'')"
  using fileKey_from_transfer_url [where t = 1200 and st = 200 and f = parcel_kml
          and url = "''https://store/bucket/input_kml_files/parcel.kml?sig=abc''"
          and flds = "JObj []" and cb = True and now = 1700000000000 and evs = "[]"
          and put = "\<lambda>u. FetchResolves \<lparr> resp_status = 200, resp_statusText = ''OK'', resp_json = Inr JNull \<rparr>"
          and r = "\<lparr> resp_status = 200, resp_statusText = ''OK'', resp_json = Inr JNull \<rparr>"]
        fileKey_from_transfer_url [where t = 1200 and st = 200 and f = parcel_kml
          and url = "''https://store/bucket/?sig=abc''"
          and flds = "JObj []" and cb = True and now = 1700000000000 and evs = "[]"
          and put = "\<lambda>u. FetchRejects NotAnError"
          and r = "\<lparr> resp_status = 200, resp_statusText = ''OK'', resp_json = Inr JNull \<rparr>"]
  by (simp add: spec_url_key_def parcel_kml_def ok_def js_prop_def show_nat_eval)

text \<open>
  C6.  \<open>requestPresignedUrl\<close> checks its own arguments before any network call,
  whatever \<open>fetch\<close> would answer, the size first and the type second.  A size above
  50 MiB fails with the size error.  A MIME type and file name that both fail the
  KML/KMZ check fail with the type error, unless the size is above 50 MiB too, which
  the first check has then already answered with the size error.  In each case no
  network call is issued: the list of request bodies sent is empty.
\<close>

theorem requestPresignedUrl_revalidates:
  "(fileSize > 50 * 1024 * 1024 \<longrightarrow>
      requestPresignedUrl fetch now1 now2 fileName fileType fileSize
        = ([], Inl size_limit_message)) \<and>
   (\<not> includes_str fileType ''application/vnd.google-earth.kml'' \<and>
    \<not> includes_str fileType ''application/vnd.google-earth.kmz'' \<and>
    \<not> endsWith (toLowerCase fileName) ''.kml'' \<and>
    \<not> endsWith (toLowerCase fileName) ''.kmz'' \<longrightarrow>
      requestPresignedUrl fetch now1 now2 fileName fileType fileSize
        = ([], Inl (if fileSize > 50 * 1024 * 1024 then size_limit_message
                    else type_not_allowed_message)))"
  by (simp add: requestPresignedUrl_def type_check_fails_def)

theorem requestPresignedUrl_revalidates_witness:
  "requestPresignedUrl (\<lambda>b. FetchRejects NotAnError) 0 0 ''parcel.kml''
       ''application/vnd.google-earth.kml'' 52428801
     = ([], Inl ''File size exceeds 50MB limit'') \<and>
   requestPresignedUrl (\<lambda>b. FetchRejects NotAnError) 0 0 ''map.png'' ''image/png'' 1024
     = ([], Inl ''Only KML and KMZ files are allowed'')"
  using requestPresignedUrl_revalidates [where fetch = "\<lambda>b. FetchRejects NotAnError"
          and ?now1.0 = 0 and ?now2.0 = 0 and fileName = "''parcel.kml''"
          and fileType = "''application/vnd.google-earth.kml''" and fileSize = 52428801]
        requestPresignedUrl_revalidates [where fetch = "\<lambda>b. FetchRejects NotAnError"
          and ?now1.0 = 0 and ?now2.0 = 0 and fileName = "''map.png''"
          and fileType = "''image/png''" and fileSize = 1024]
  by (simp add: size_limit_message_def type_not_allowed_message_def endsWith_def
                toLowerCase_def lower_char_def upper_letters_def lower_letters_def)

text \<open>
  C7 (as the code has it).  Let the credential response be a success (status 200 to
  299).  A body that is a JSON value other than \<open>null\<close> without a truthy
  \<open>presignedUrl\<close> fails with the missing-field error, as rethrown by the
  \<open>catch\<close> block.  A body of \<open>null\<close> fails with the engine's error for reading
  a property of \<open>null\<close>, and a body that does not parse with the parser's error,
  each rethrown by the same \<open>catch\<close> block.  Credentials are returned exactly when
  the body is a JSON value other than \<open>null\<close> with a truthy \<open>presignedUrl\<close>.
\<close>

theorem requestPresignedUrl_missing_presignedUrl:
  assumes "fileSize \<le> 50 * 1024 * 1024" and "\<not> type_check_fails fileName fileType"
    and "fetch (''input_kml_files/'' @ fileName) = FetchResolves r" and "ok r"
  shows "(\<forall>data. resp_json r = Inr data \<and> data \<noteq> JNull \<and>
                 \<not> truthy (js_prop data ''presignedUrl'') \<longrightarrow>
            snd (requestPresignedUrl fetch now1 now2 fileName fileType fileSize)
              = Inl ''Failed to request presigned URL: Invalid response from server: missing presignedUrl'') \<and>
         (resp_json r = Inr JNull \<longrightarrow>
            snd (requestPresignedUrl fetch now1 now2 fileName fileType fileSize)
              = Inl (presigned_catch (null_property_error ''presignedUrl''))) \<and>
         (\<forall>e. resp_json r = Inl e \<longrightarrow>
            snd (requestPresignedUrl fetch now1 now2 fileName fileType fileSize)
              = Inl (presigned_catch e)) \<and>
         ((\<exists>c. snd (requestPresignedUrl fetch now1 now2 fileName fileType fileSize) = Inr c)
            \<longleftrightarrow> (\<exists>data. resp_json r = Inr data \<and> data \<noteq> JNull \<and>
                         truthy (js_prop data ''presignedUrl'')))"
proof -
  have res: "snd (requestPresignedUrl fetch now1 now2 fileName fileType fileSize)
          = (case presigned_try (FetchResolves r) now1 now2 fileName fileType of
               Inl e \<Rightarrow> Inl (presigned_catch e) | Inr c \<Rightarrow> Inr c)"
    using assms(1-3) by (simp add: requestPresignedUrl_def)
  have a: "\<forall>data. resp_json r = Inr data \<and> data \<noteq> JNull \<and>
                 \<not> truthy (js_prop data ''presignedUrl'') \<longrightarrow>
            snd (requestPresignedUrl fetch now1 now2 fileName fileType fileSize)
              = Inl ''Failed to request presigned URL: Invalid response from server: missing presignedUrl''"
    using assms(4) by (simp add: res presigned_try_missing missing_presignedUrl_not_cors)
  have b: "resp_json r = Inr JNull \<longrightarrow>
            snd (requestPresignedUrl fetch now1 now2 fileName fileType fileSize)
              = Inl (presigned_catch (null_property_error ''presignedUrl''))"
    using assms(4) by (simp add: res presigned_try_null)
  have c: "\<forall>e. resp_json r = Inl e \<longrightarrow>
            snd (requestPresignedUrl fetch now1 now2 fileName fileType fileSize)
              = Inl (presigned_catch e)"
    using assms(4) by (simp add: res presigned_try_unparsable)
  have d: "(\<exists>c. snd (requestPresignedUrl fetch now1 now2 fileName fileType fileSize) = Inr c)
            \<longleftrightarrow> (\<exists>data. resp_json r = Inr data \<and> data \<noteq> JNull \<and>
                         truthy (js_prop data ''presignedUrl''))"
    using presigned_try_credentials [OF assms(4), of now1 now2 fileName fileType]
    by (auto simp add: res split: sum.splits)
  from a b c d show ?thesis by blast
qed

theorem requestPresignedUrl_missing_presignedUrl_witness:
  "snd (requestPresignedUrl
          (\<lambda>b. FetchResolves \<lparr> resp_status = 200, resp_statusText = ''OK'',
                  resp_json = Inr (JObj [(''fileKey'', JStr ''input_kml_files/parcel.kml'')]) \<rparr>)
          0 0 ''parcel.kml'' ''application/vnd.google-earth.kml'' 2097152)
     = Inl ''Failed to request presigned URL: Invalid response from server: missing presignedUrl''"
  using requestPresignedUrl_missing_presignedUrl
          [where fetch = "\<lambda>b. FetchResolves \<lparr> resp_status = 200, resp_statusText = ''OK'',
                  resp_json = Inr (JObj [(''fileKey'', JStr ''input_kml_files/parcel.kml'')]) \<rparr>"
           and r = "\<lparr> resp_status = 200, resp_statusText = ''OK'',
                  resp_json = Inr (JObj [(''fileKey'', JStr ''input_kml_files/parcel.kml'')]) \<rparr>"
           and ?now1.0 = 0 and ?now2.0 = 0 and fileName = "''parcel.kml''"
           and fileType = "''application/vnd.google-earth.kml''" and fileSize = 2097152]
  by (simp add: type_check_fails_def ok_def js_prop_def)

text \<open>
  C7, the stated error refuted: a success response whose body is \<open>null\<close> has no
  \<open>presignedUrl\<close>; the call fails, but with the message of the engine's
  \<open>TypeError\<close>, which is not the missing-field error.
\<close>

theorem requestPresignedUrl_null_body_counterexample:
  "snd (requestPresignedUrl
          (\<lambda>b. FetchResolves \<lparr> resp_status = 200, resp_statusText = ''OK'',
                                 resp_json = Inr JNull \<rparr>)
          0 0 ''parcel.kml'' ''application/vnd.google-earth.kml'' 2097152)
     = Inl (''Failed to request presigned URL: Cannot read properties of null (reading ''
            @ [CHR 0x27] @ ''presignedUrl'' @ [CHR 0x27] @ '')'') \<and>
   ''Failed to request presigned URL: Cannot read properties of null (reading ''
            @ [CHR 0x27] @ ''presignedUrl'' @ [CHR 0x27] @ '')''
     \<noteq> ''Failed to request presigned URL: Invalid response from server: missing presignedUrl'' \<and>
   ''Failed to request presigned URL: Cannot read properties of null (reading ''
            @ [CHR 0x27] @ ''presignedUrl'' @ [CHR 0x27] @ '')''
     \<noteq> missing_presignedUrl_message"
  by (simp add: requestPresignedUrl_def type_check_fails_def presigned_try_def ok_def
                presigned_catch_def null_property_error_def missing_presignedUrl_message_def)

text \<open>
  C8, what the code does.  \<open>processKmlFile\<close> never fails.  When the base-36 text of
  the random draw is \<open>0.\<close> followed by the digits \<open>ds\<close>, the identifier matches
  \<open>analysis-\d+-[a-z0-9]{9}\<close> exactly when there are at least 9 digits.  A draw of
  one half has the text \<open>0.i\<close>: the identifier then ends in the single character
  \<open>i\<close> and does not match.
\<close>

theorem processKmlFile_identifier:
  "(\<exists>analysisId. processKmlFile key now rnd36 = Inr analysisId) \<and>
   (list_all is_base36 ds \<longrightarrow>
      (\<exists>analysisId. processKmlFile key now (''0.'' @ ds) = Inr analysisId \<and>
         (matches_analysis_pattern analysisId \<longleftrightarrow> 9 \<le> length ds))) \<and>
   processKmlFile key 1700000000000 ''0.i'' = Inr ''analysis-1700000000000-i'' \<and>
   \<not> matches_analysis_pattern ''analysis-1700000000000-i''"
proof -
  have a: "\<exists>analysisId. processKmlFile key now rnd36 = Inr analysisId"
    by (simp add: processKmlFile_def)
  have b: "list_all is_base36 ds \<longrightarrow>
      (\<exists>analysisId. processKmlFile key now (''0.'' @ ds) = Inr analysisId \<and>
         (matches_analysis_pattern analysisId \<longleftrightarrow> 9 \<le> length ds))"
  proof
    assume ds: "list_all is_base36 ds"
    have "processKmlFile key now (''0.'' @ ds)
            = Inr (''analysis-'' @ show_nat now @ ''-'' @ take 9 ds)"
      by (simp add: processKmlFile_def substr_def)
    moreover have "matches_analysis_pattern (''analysis-'' @ show_nat now @ ''-'' @ take 9 ds)
            \<longleftrightarrow> 9 \<le> length ds"
      using list_all_take [OF ds, of 9] by (simp only: matches_analysis_id) auto
    ultimately show "\<exists>analysisId. processKmlFile key now (''0.'' @ ds) = Inr analysisId \<and>
         (matches_analysis_pattern analysisId \<longleftrightarrow> 9 \<le> length ds)"
      by blast
  qed
  have c: "processKmlFile key 1700000000000 ''0.i'' = Inr ''analysis-1700000000000-i''"
    by (simp add: processKmlFile_def substr_def show_nat_eval)
  have d: "\<not> matches_analysis_pattern ''analysis-1700000000000-i''"
    by (simp add: matches_analysis_pattern_def is_digit_def)
  from a b c d show ?thesis by blast
qed

theorem processKmlFile_identifier_witness:
  "list_all is_base36 ''4fzyo82mvyr'' \<and>
   (\<exists>analysisId. processKmlFile ''parcel.kml'' 1700000000000 ''0.4fzyo82mvyr'' = Inr analysisId \<and>
      matches_analysis_pattern analysisId) \<and>
   list_all is_base36 ''i'' \<and>
   (\<exists>analysisId. processKmlFile ''parcel.kml'' 1700000000000 ''0.i'' = Inr analysisId \<and>
      \<not> matches_analysis_pattern analysisId)"
proof -
  have l: "list_all is_base36 ''4fzyo82mvyr''" and s: "list_all is_base36 ''i''"
    by (simp_all add: is_base36_def)
  from l processKmlFile_identifier [where key = "''parcel.kml''" and now = 1700000000000
          and ds = "''4fzyo82mvyr''"]
  have a: "\<exists>analysisId. processKmlFile ''parcel.kml'' 1700000000000 ''0.4fzyo82mvyr''
             = Inr analysisId \<and> matches_analysis_pattern analysisId"
    by simp
  from s processKmlFile_identifier [where key = "''parcel.kml''" and now = 1700000000000
          and ds = "''i''"]
  have b: "\<exists>analysisId. processKmlFile ''parcel.kml'' 1700000000000 ''0.i''
             = Inr analysisId \<and> \<not> matches_analysis_pattern analysisId"
    by simp
  from l s a b show ?thesis by blast
qed

text \<open>
  C9 (as the code has it).  Let the request name a non-empty \<open>fileName\<close> and the
  upstream answer with a success (status 200 to 299).  When the body is a JSON value
  other than \<open>null\<close> without a truthy \<open>uploadUrl\<close>, the \<open>/api/presigned-url\<close>
  route answers with status 200 and the fallback credentials: \<open>fileKey\<close> is the
  requested \<open>fileName\<close>, \<open>expiresIn\<close> is 3600 and \<open>presignedUrl\<close> is the mock
  bucket URL built from the \<open>fileName\<close>.  When the body is \<open>null\<close> or does not
  parse, the route's \<open>catch\<close> block answers with status 500 and the error
  \<open>Internal server error\<close>.
\<close>

theorem presigned_url_proxy_fallback:
  assumes "fileName \<noteq> []" and "upstream fileName = FetchResolves r" and "ok r"
  shows "(\<forall>data. resp_json r = Inr data \<and> data \<noteq> JNull \<and>
                 \<not> truthy (js_prop data ''uploadUrl'') \<longrightarrow>
           http_status (presigned_url_POST (Inr (Some fileName)) upstream isoText now) = 200 \<and>
           js_prop (http_body (presigned_url_POST (Inr (Some fileName)) upstream isoText now))
               ''fileKey'' = Some (JStr fileName) \<and>
           js_prop (http_body (presigned_url_POST (Inr (Some fileName)) upstream isoText now))
               ''expiresIn'' = Some (JNum 3600) \<and>
           js_prop (http_body (presigned_url_POST (Inr (Some fileName)) upstream isoText now))
               ''presignedUrl''
             = Some (JStr (''https://mock-s3-bucket.s3.amazonaws.com/'' @ fileName
                 @ ''?X-Amz-Algorithm=AWS4-HMAC-SHA256&X-Amz-Credential=mock&X-Amz-Date=''
                 @ amz_date isoText
                 @ ''Z&X-Amz-Expires=3600&X-Amz-SignedHeaders=host&X-Amz-Signature=mock''))) \<and>
         (resp_json r = Inr JNull \<longrightarrow>
            presigned_url_POST (Inr (Some fileName)) upstream isoText now
              = \<lparr> http_status = 500,
                  http_body = JObj [(''error'', JStr ''Internal server error'')],
                  cors_headers = False \<rparr>) \<and>
         (\<forall>e. resp_json r = Inl e \<longrightarrow>
            presigned_url_POST (Inr (Some fileName)) upstream isoText now
              = \<lparr> http_status = 500,
                  http_body = JObj [(''error'', JStr ''Internal server error'')],
                  cors_headers = False \<rparr>)"
proof -
  have a: "\<forall>data. resp_json r = Inr data \<and> data \<noteq> JNull \<and>
                 \<not> truthy (js_prop data ''uploadUrl'') \<longrightarrow>
             presigned_url_POST (Inr (Some fileName)) upstream isoText now
               = \<lparr> http_status = 200, http_body = fallbackData fileName isoText now,
                   cors_headers = True \<rparr>"
  proof (intro allI impI)
    fix data
    assume "resp_json r = Inr data \<and> data \<noteq> JNull \<and> \<not> truthy (js_prop data ''uploadUrl'')"
    with assms show "presigned_url_POST (Inr (Some fileName)) upstream isoText now
               = \<lparr> http_status = 200, http_body = fallbackData fileName isoText now,
                   cors_headers = True \<rparr>"
      by (cases data) (simp_all add: presigned_url_POST_def)
  qed
  have b: "resp_json r = Inr JNull \<longrightarrow>
            presigned_url_POST (Inr (Some fileName)) upstream isoText now
              = \<lparr> http_status = 500,
                  http_body = JObj [(''error'', JStr ''Internal server error'')],
                  cors_headers = False \<rparr>"
    using assms by (simp add: presigned_url_POST_def internal_server_error_def)
  have c: "\<forall>e. resp_json r = Inl e \<longrightarrow>
            presigned_url_POST (Inr (Some fileName)) upstream isoText now
              = \<lparr> http_status = 500,
                  http_body = JObj [(''error'', JStr ''Internal server error'')],
                  cors_headers = False \<rparr>"
    using assms by (simp add: presigned_url_POST_def internal_server_error_def)
  from a b c show ?thesis
    by (simp add: fallbackData_def js_prop_def mock_presignedUrl_def)
qed

theorem presigned_url_proxy_fallback_witness:
  "http_status (presigned_url_POST (Inr (Some ''input_kml_files/parcel.kml''))
      (\<lambda>n. FetchResolves \<lparr> resp_status = 200, resp_statusText = ''OK'',
                             resp_json = Inr (JObj [(''message'', JStr ''ok'')]) \<rparr>)
      ''2025-01-15T10:30:00.000Z'' 1736937000000) = 200 \<and>
   js_prop (http_body (presigned_url_POST (Inr (Some ''input_kml_files/parcel.kml''))
      (\<lambda>n. FetchResolves \<lparr> resp_status = 200, resp_statusText = ''OK'',
                             resp_json = Inr (JObj [(''message'', JStr ''ok'')]) \<rparr>)
      ''2025-01-15T10:30:00.000Z'' 1736937000000)) ''presignedUrl''
     = Some (JStr ''https://mock-s3-bucket.s3.amazonaws.com/input_kml_files/parcel.kml?X-Amz-Algorithm=AWS4-HMAC-SHA256&X-Amz-Credential=mock&X-Amz-Date=20250115T103000Z&X-Amz-Expires=3600&X-Amz-SignedHeaders=host&X-Amz-Signature=mock'')"
  using presigned_url_proxy_fallback
          [where fileName = "''input_kml_files/parcel.kml''"
             and upstream = "\<lambda>n. FetchResolves \<lparr> resp_status = 200, resp_statusText = ''OK'',
                             resp_json = Inr (JObj [(''message'', JStr ''ok'')]) \<rparr>"
             and r = "\<lparr> resp_status = 200, resp_statusText = ''OK'',
                             resp_json = Inr (JObj [(''message'', JStr ''ok'')]) \<rparr>"
             and isoText = "''2025-01-15T10:30:00.000Z''" and now = 1736937000000]
  by (simp add: ok_def js_prop_def amz_date_def)

text \<open>
  C9, the stated outcome refuted: an upstream success whose body is \<open>null\<close>, or whose
  body does not parse, carries no \<open>uploadUrl\<close>, and the route answers with status
  500, not with the fallback credentials.
\<close>

theorem presigned_url_proxy_null_body_counterexample:
  "presigned_url_POST (Inr (Some ''input_kml_files/parcel.kml''))
      (\<lambda>n. FetchResolves \<lparr> resp_status = 200, resp_statusText = ''OK'', resp_json = Inr JNull \<rparr>)
      ''2025-01-15T10:30:00.000Z'' 1736937000000
     = \<lparr> http_status = 500, http_body = JObj [(''error'', JStr ''Internal server error'')],
         cors_headers = False \<rparr> \<and>
   presigned_url_POST (Inr (Some ''input_kml_files/parcel.kml''))
      (\<lambda>n. FetchResolves \<lparr> resp_status = 200, resp_statusText = ''OK'',
                             resp_json = Inl (Err ''Unexpected end of JSON input'') \<rparr>)
      ''2025-01-15T10:30:00.000Z'' 1736937000000
     = \<lparr> http_status = 500, http_body = JObj [(''error'', JStr ''Internal server error'')],
         cors_headers = False \<rparr>"
  by (simp add: presigned_url_POST_def ok_def internal_server_error_def)

text \<open>
  C10.  The type check of \<open>requestPresignedUrl\<close> is disjunctive.  The type error is
  the result only when the MIME type contains neither media type and the lower-cased
  file name ends in neither extension; a file within the size limit for which any one
  of the four tests succeeds passes the check, and the network call is issued.
\<close>

theorem type_check_is_disjunctive:
  "(snd (requestPresignedUrl fetch now1 now2 fileName fileType fileSize)
      = Inl type_not_allowed_message \<longrightarrow>
      \<not> includes_str fileType ''application/vnd.google-earth.kml'' \<and>
      \<not> includes_str fileType ''application/vnd.google-earth.kmz'' \<and>
      \<not> endsWith (toLowerCase fileName) ''.kml'' \<and>
      \<not> endsWith (toLowerCase fileName) ''.kmz'') \<and>
   (fileSize \<le> 50 * 1024 * 1024 \<and>
    (includes_str fileType ''application/vnd.google-earth.kml'' \<or>
     includes_str fileType ''application/vnd.google-earth.kmz'' \<or>
     endsWith (toLowerCase fileName) ''.kml'' \<or>
     endsWith (toLowerCase fileName) ''.kmz'') \<longrightarrow>
      fst (requestPresignedUrl fetch now1 now2 fileName fileType fileSize)
        = [''input_kml_files/'' @ fileName] \<and>
      snd (requestPresignedUrl fetch now1 now2 fileName fileType fileSize)
        \<noteq> Inl type_not_allowed_message)"
proof -
  have neq: "size_limit_message \<noteq> type_not_allowed_message"
    by (simp add: size_limit_message_def type_not_allowed_message_def)
  show ?thesis
    using neq presigned_catch_not_validation
    by (auto simp add: requestPresignedUrl_def type_check_fails_def split: sum.splits)
qed

theorem type_check_is_disjunctive_witness:
  "fst (requestPresignedUrl (\<lambda>b. FetchRejects NotAnError) 0 0 ''parcel.txt''
          ''application/vnd.google-earth.kml+xml'' 2097152) = [''input_kml_files/parcel.txt''] \<and>
   fst (requestPresignedUrl (\<lambda>b. FetchRejects NotAnError) 0 0 ''Parcel.KMZ''
          ''application/octet-stream'' 2097152) = [''input_kml_files/Parcel.KMZ''] \<and>
   snd (requestPresignedUrl (\<lambda>b. FetchRejects NotAnError) 0 0 ''map.png'' ''image/png'' 1024)
     = Inl type_not_allowed_message \<and>
   \<not> includes_str ''image/png'' ''application/vnd.google-earth.kml'' \<and>
   \<not> endsWith (toLowerCase ''map.png'') ''.kmz''"
proof -
  have png: "snd (requestPresignedUrl (\<lambda>b. FetchRejects NotAnError) 0 0 ''map.png''
                    ''image/png'' 1024) = Inl type_not_allowed_message"
    by (simp add: requestPresignedUrl_def type_check_fails_def endsWith_def toLowerCase_def
                  lower_char_def upper_letters_def lower_letters_def)
  from png
       type_check_is_disjunctive [where fetch = "\<lambda>b. FetchRejects NotAnError"
          and ?now1.0 = 0 and ?now2.0 = 0 and fileName = "''map.png''"
          and fileType = "''image/png''" and fileSize = 1024]
  have a: "\<not> includes_str ''image/png'' ''application/vnd.google-earth.kml'' \<and>
           \<not> endsWith (toLowerCase ''map.png'') ''.kmz''"
    by blast
  from type_check_is_disjunctive [where fetch = "\<lambda>b. FetchRejects NotAnError"
          and ?now1.0 = 0 and ?now2.0 = 0 and fileName = "''parcel.txt''"
          and fileType = "''application/vnd.google-earth.kml+xml''" and fileSize = 2097152]
  have b: "fst (requestPresignedUrl (\<lambda>b. FetchRejects NotAnError) 0 0 ''parcel.txt''
          ''application/vnd.google-earth.kml+xml'' 2097152) = [''input_kml_files/parcel.txt'']"
    by simp
  from type_check_is_disjunctive [where fetch = "\<lambda>b. FetchRejects NotAnError"
          and ?now1.0 = 0 and ?now2.0 = 0 and fileName = "''Parcel.KMZ''"
          and fileType = "''application/octet-stream''" and fileSize = 2097152]
  have c: "fst (requestPresignedUrl (\<lambda>b. FetchRejects NotAnError) 0 0 ''Parcel.KMZ''
          ''application/octet-stream'' 2097152) = [''input_kml_files/Parcel.KMZ'']"
    by (simp add: endsWith_def toLowerCase_def lower_char_def upper_letters_def lower_letters_def)
  from a b c png show ?thesis by blast
qed

end
